theory Spec2Isabelle
  imports Complex_Main "HOL-Library.Multiset" "HOL-Library.Char_ord" "HOL-Library.List_Lexorder"
begin

section \<open>Python values and strings\<close>

text \<open>
  The rule body that \<open>flatten_rule\<close> receives is a Python object: what \<open>json.load\<close> or
  \<open>json.loads\<close> produces (\<open>None\<close>, \<open>bool\<close>, \<open>int\<close>, \<open>float\<close>, \<open>str\<close>, \<open>list\<close>, \<open>dict\<close> with
  string keys), or a \<open>str\<close> read from a CSV cell.

  \<^item> A Python \<open>str\<close> is modelled by its UTF-8 bytes (\<open>string\<close>); concatenation and
    \<open>join\<close> act on it byte-wise, and every character that JSON's grammar inspects is ASCII.
  \<^item> A \<open>dict\<close> is an association list in insertion order, which is the order \<open>items()\<close>
    iterates in.
  \<^item> A \<open>float\<close> is carried by its \<open>repr\<close> (\<open>''1.5''\<close>, \<open>''1e+22''\<close>, \<open>''nan''\<close>), which is also what
    \<open>str\<close> prints; turning a JSON number literal into a float is IEEE-754 rounding and is
    left to a parameter of the parser.
\<close>

datatype pyval =
    PyNone
  | PyBool bool
  | PyInt int
  | PyFloat string
  | PyStr string
  | PyList "pyval list"
  | PyDict "(string \<times> pyval) list"

definition digit_chr :: "nat \<Rightarrow> char" where
  "digit_chr d = ''0123456789'' ! d"

function decimal :: "int \<Rightarrow> string" where
  "decimal n =
     (if n < 10 then [digit_chr (nat n)] else decimal (n div 10) @ [digit_chr (nat (n mod 10))])"
  by pat_completeness auto
termination
  by (relation "measure nat") auto

declare decimal.simps [simp del]

definition str_int :: "int \<Rightarrow> string" where
  "str_int i = (if i < 0 then CHR ''-'' # decimal (- i) else decimal i)"

text \<open>\<open>sep.join(parts)\<close>.\<close>

fun join :: "string \<Rightarrow> string list \<Rightarrow> string" where
  "join sep [] = []"
| "join sep [x] = x"
| "join sep (x # y # zs) = x @ sep @ join sep (y # zs)"

section \<open>\<open>json.loads\<close>\<close>

text \<open>
  \<open>json.loads\<close> is the standard library's decoder; the model follows its grammar (the C
  scanner of CPython): whitespace is space, tab, line feed and carriage return; strings are
  strict (no raw control character), with the escapes \<open>\" \\ \/ \b \f \n \r \t \uXXXX\<close> and
  surrogate pairs; numbers are \<open>-?(0|[1-9][0-9]*)(\.[0-9]+)?([eE][-+]?[0-9]+)?\<close>, an \<open>int\<close>
  unless a fraction or an exponent is present; the constants are \<open>null true false NaN
  Infinity -Infinity\<close>; a repeated key keeps its first position and its last value.
  Every way the decoder raises is the result \<open>None\<close>. The text is first cut into tokens and
  the tokens are then read by a stack machine; since whitespace may stand exactly between
  tokens, this accepts the same texts with the same values as the recursive scanner.
  The interpreter's resource limits (recursion depth, the digit limit of \<open>int\<close>) are not
  modelled.
\<close>

datatype token = LBrace | RBrace | LBracket | RBracket | Comma | Colon | Scalar pyval

definition quote :: char where
  "quote = CHR 0x22"

definition backslash :: char where
  "backslash = CHR 0x5C"

definition is_ws :: "char \<Rightarrow> bool" where
  "is_ws c = (c = CHR '' '' \<or> c = CHR 0x09 \<or> c = CHR 0x0A \<or> c = CHR 0x0D)"

definition is_digit :: "char \<Rightarrow> bool" where
  "is_digit c = (c \<in> set ''0123456789'')"

definition digit_val :: "char \<Rightarrow> int" where
  "digit_val c = of_char c - 48"

definition int_of_digits :: "string \<Rightarrow> int" where
  "int_of_digits ds = foldl (\<lambda>a c. 10 * a + digit_val c) 0 ds"

definition hex_val :: "char \<Rightarrow> nat option" where
  "hex_val c =
     (let n = (of_char c :: nat) in
      if 48 \<le> n \<and> n \<le> 57 then Some (n - 48)
      else if 97 \<le> n \<and> n \<le> 102 then Some (n - 87)
      else if 65 \<le> n \<and> n \<le> 70 then Some (n - 55)
      else None)"

fun hex4 :: "string \<Rightarrow> nat option" where
  "hex4 [a, b, c, d] =
     (case (hex_val a, hex_val b, hex_val c, hex_val d) of
        (Some x, Some y, Some z, Some w) \<Rightarrow> Some (((x * 16 + y) * 16 + z) * 16 + w)
      | _ \<Rightarrow> None)"
| "hex4 _ = None"

text \<open>The UTF-8 bytes of a code point.\<close>

definition utf8 :: "nat \<Rightarrow> string" where
  "utf8 n =
     (if n < 0x80 then [char_of n]
      else if n < 0x800 then [char_of (0xC0 + n div 0x40), char_of (0x80 + n mod 0x40)]
      else if n < 0x10000 then
        [char_of (0xE0 + n div 0x1000), char_of (0x80 + n div 0x40 mod 0x40),
         char_of (0x80 + n mod 0x40)]
      else
        [char_of (0xF0 + n div 0x40000), char_of (0x80 + n div 0x1000 mod 0x40),
         char_of (0x80 + n div 0x40 mod 0x40), char_of (0x80 + n mod 0x40)])"

definition simple_escape :: "char \<Rightarrow> char option" where
  "simple_escape e =
     (if e = quote \<or> e = backslash \<or> e = CHR ''/'' then Some e
      else if e = CHR ''b'' then Some (CHR 0x08)
      else if e = CHR ''f'' then Some (CHR 0x0C)
      else if e = CHR ''n'' then Some (CHR 0x0A)
      else if e = CHR ''r'' then Some (CHR 0x0D)
      else if e = CHR ''t'' then Some (CHR 0x09)
      else None)"

text \<open>
  \<open>unescape cs\<close> decodes one escape, \<open>cs\<close> being the text after the backslash, and returns
  the decoded bytes with the text that follows the escape. A high surrogate followed by an
  escaped low surrogate is one code point.
\<close>

definition unescape :: "string \<Rightarrow> (string \<times> string) option" where
  "unescape cs =
     (case cs of
        [] \<Rightarrow> None
      | e # r \<Rightarrow>
          if e = CHR ''u'' then
            (case hex4 (take 4 r) of
               None \<Rightarrow> None
             | Some hi \<Rightarrow>
                 if 0xD800 \<le> hi \<and> hi \<le> 0xDBFF \<and> take 2 (drop 4 r) = [backslash, CHR ''u''] then
                   (case hex4 (take 4 (drop 6 r)) of
                      None \<Rightarrow> None
                    | Some lo \<Rightarrow>
                        if 0xDC00 \<le> lo \<and> lo \<le> 0xDFFF
                        then Some (utf8 (0x10000 + (hi - 0xD800) * 0x400 + (lo - 0xDC00)),
                                   drop 10 r)
                        else Some (utf8 hi, drop 4 r))
                 else Some (utf8 hi, drop 4 r))
          else map_option (\<lambda>b. ([b], r)) (simple_escape e))"

lemma unescape_shorter: "unescape cs = Some (bs, r) \<Longrightarrow> length r < Suc (length cs)"
  by (auto simp: unescape_def split: list.splits option.splits if_splits)

text \<open>\<open>scanstring cs\<close> reads a string literal whose opening quote has been consumed.\<close>

function scanstring :: "string \<Rightarrow> (string \<times> string) option" where
  "scanstring [] = None"
| "scanstring (c # cs) =
     (if c = quote then Some ([], cs)
      else if c = backslash then
        (case unescape cs of
           None \<Rightarrow> None
         | Some (bs, r) \<Rightarrow> map_option (\<lambda>(s, r'). (bs @ s, r')) (scanstring r))
      else if (of_char c :: nat) < 0x20 then None
      else map_option (\<lambda>(s, r'). (c # s, r')) (scanstring cs))"
  by pat_completeness auto
termination
  by (relation "measure length") (auto dest: unescape_shorter)

lemma scanstring_shorter: "scanstring cs = Some (s, r) \<Longrightarrow> length r < Suc (length cs)"
proof (induction cs arbitrary: s r rule: scanstring.induct)
  case 1
  then show ?case by simp
next
  case (2 c cs)
  show ?case
  proof (cases "c = quote")
    case True
    with "2.prems" show ?thesis by simp
  next
    case nq: False
    show ?thesis
    proof (cases "c = backslash")
      case True
      with nq "2.prems" obtain bs r0 s0 where u: "unescape cs = Some (bs, r0)"
        and sc: "scanstring r0 = Some (s0, r)"
        by (auto split: option.splits)
      from "2.IH"(1) [OF nq True u refl sc] have "length r < Suc (length r0)" .
      with unescape_shorter [OF u] show ?thesis by simp
    next
      case False
      with nq "2.prems" obtain s0 where lo: "\<not> (of_char c :: nat) < 0x20"
        and sc: "scanstring cs = Some (s0, r)"
        by (auto split: if_splits)
      from "2.IH"(2) [OF nq False lo sc] show ?thesis by simp
    qed
  qed
qed

text \<open>
  The scanner's number match, in its three parts. \<open>match_int\<close> is \<open>0|[1-9][0-9]*\<close> (after a
  zero the integer part ends); \<open>match_frac\<close> is \<open>(\.[0-9]+)?\<close>; \<open>match_exp\<close> is
  \<open>([eE][-+]?[0-9]+)?\<close>, where an exponent marker with no digit after it is not part of
  the number. \<open>match_number s\<close> returns the integer part with its sign, the fraction, the
  exponent (each empty when absent) and the text that follows.
\<close>

definition match_int :: "string \<Rightarrow> string option" where
  "match_int s =
     (let ds = takeWhile is_digit s
      in if ds = [] then None else if hd ds = CHR ''0'' then Some ''0'' else Some ds)"

definition match_frac :: "string \<Rightarrow> string" where
  "match_frac s =
     (let fd = takeWhile is_digit (drop 1 s)
      in if take 1 s = ''.'' \<and> fd \<noteq> [] then CHR ''.'' # fd else [])"

definition match_exp :: "string \<Rightarrow> string" where
  "match_exp s =
     (let mark = (if take 1 (drop 1 s) = ''+'' \<or> take 1 (drop 1 s) = ''-''
                  then take 2 s else take 1 s);
          ed = takeWhile is_digit (drop (length mark) s)
      in if (take 1 s = ''e'' \<or> take 1 s = ''E'') \<and> ed \<noteq> [] then mark @ ed else [])"

definition match_number :: "string \<Rightarrow> (string \<times> string \<times> string \<times> string) option" where
  "match_number s =
     (let sign = (if take 1 s = ''-'' then ''-'' else []);
          s1 = drop (length sign) s
      in case match_int s1 of
           None \<Rightarrow> None
         | Some ip \<Rightarrow>
             let s2 = drop (length ip) s1;
                 fraction = match_frac s2;
                 s3 = drop (length fraction) s2;
                 ex = match_exp s3
             in Some (sign @ ip, fraction, ex, drop (length ex) s3))"

text \<open>
  \<open>int(numstr)\<close> for an integer literal; a literal with a fraction or an exponent goes to
  \<open>pyfloat\<close>, which stands for Python's \<open>float\<close> followed by \<open>repr\<close>.
\<close>

definition int_of_literal :: "string \<Rightarrow> int" where
  "int_of_literal l =
     (if take 1 l = ''-'' then - int_of_digits (drop 1 l) else int_of_digits l)"

definition scan_number :: "(string \<Rightarrow> string) \<Rightarrow> string \<Rightarrow> (pyval \<times> string) option" where
  "scan_number pyfloat s =
     (case match_number s of
        None \<Rightarrow> None
      | Some (ip, fraction, ex, r) \<Rightarrow>
          if fraction = [] \<and> ex = [] then Some (PyInt (int_of_literal ip), r)
          else Some (PyFloat (pyfloat (ip @ fraction @ ex)), r))"

definition starts_with :: "string \<Rightarrow> string \<Rightarrow> bool" where
  "starts_with s p = (take (length p) s = p)"

definition scan_constant :: "string \<Rightarrow> (pyval \<times> string) option" where
  "scan_constant s =
     (if starts_with s ''null'' then Some (PyNone, drop 4 s)
      else if starts_with s ''true'' then Some (PyBool True, drop 4 s)
      else if starts_with s ''false'' then Some (PyBool False, drop 5 s)
      else if starts_with s ''NaN'' then Some (PyFloat ''nan'', drop 3 s)
      else if starts_with s ''Infinity'' then Some (PyFloat ''inf'', drop 8 s)
      else if starts_with s ''-Infinity'' then Some (PyFloat ''-inf'', drop 9 s)
      else None)"

definition scan_scalar :: "(string \<Rightarrow> string) \<Rightarrow> string \<Rightarrow> (pyval \<times> string) option" where
  "scan_scalar pyfloat s =
     (case scan_constant s of
        Some vr \<Rightarrow> Some vr
      | None \<Rightarrow> scan_number pyfloat s)"

lemma match_int_length: "match_int s = Some ip \<Longrightarrow> 0 < length ip \<and> length ip \<le> length s"
proof -
  assume a: "match_int s = Some ip"
  have le: "length (takeWhile is_digit s) \<le> length s"
    by (rule length_takeWhile_le)
  from a have ne: "takeWhile is_digit s \<noteq> []"
    by (auto simp: match_int_def Let_def split: if_splits)
  from a have "ip = ''0'' \<or> ip = takeWhile is_digit s"
    by (auto simp: match_int_def Let_def split: if_splits)
  then show ?thesis
  proof
    assume "ip = ''0''"
    moreover from ne le have "1 \<le> length s"
      by (cases s) auto
    ultimately show ?thesis by simp
  next
    assume "ip = takeWhile is_digit s"
    with ne le show ?thesis by simp
  qed
qed

lemma match_number_shorter:
  assumes "match_number (c # cs) = Some (ip, fraction, ex, r)"
  shows "length r < Suc (length cs)"
proof -
  define sign where "sign = (if take 1 (c # cs) = ''-'' then ''-'' else [])"
  define s1 where "s1 = drop (length sign) (c # cs)"
  from assms obtain ip0 where m: "match_int s1 = Some ip0"
    and r: "r = drop (length (match_exp (drop (length (match_frac (drop (length ip0) s1)))
                (drop (length ip0) s1))))
              (drop (length (match_frac (drop (length ip0) s1))) (drop (length ip0) s1))"
    unfolding match_number_def Let_def sign_def [symmetric] s1_def [symmetric]
    by (auto split: option.splits)
  from match_int_length [OF m] have "0 < length ip0" "length ip0 \<le> length s1"
    by simp_all
  moreover have "length s1 \<le> Suc (length cs)"
    by (simp add: s1_def)
  moreover from r have "length r \<le> length s1 - length ip0"
    by simp
  ultimately show ?thesis by linarith
qed

lemma scan_scalar_shorter:
  "scan_scalar pyfloat (c # cs) = Some (v, r) \<Longrightarrow> length r < Suc (length cs)"
  by (auto simp: scan_scalar_def scan_constant_def scan_number_def starts_with_def
      split: option.splits if_splits dest: match_number_shorter)

text \<open>The tokens of a JSON text; \<open>None\<close> when some character starts no token.\<close>

function lex :: "(string \<Rightarrow> string) \<Rightarrow> string \<Rightarrow> token list option" where
  "lex pyfloat [] = Some []"
| "lex pyfloat (c # cs) =
     (if is_ws c then lex pyfloat cs
      else if c = CHR ''{'' then map_option ((#) LBrace) (lex pyfloat cs)
      else if c = CHR ''}'' then map_option ((#) RBrace) (lex pyfloat cs)
      else if c = CHR ''['' then map_option ((#) LBracket) (lex pyfloat cs)
      else if c = CHR '']'' then map_option ((#) RBracket) (lex pyfloat cs)
      else if c = CHR '','' then map_option ((#) Comma) (lex pyfloat cs)
      else if c = CHR '':'' then map_option ((#) Colon) (lex pyfloat cs)
      else if c = quote then
        (case scanstring cs of
           None \<Rightarrow> None
         | Some (s, r) \<Rightarrow> map_option ((#) (Scalar (PyStr s))) (lex pyfloat r))
      else
        (case scan_scalar pyfloat (c # cs) of
           None \<Rightarrow> None
         | Some (v, r) \<Rightarrow> map_option ((#) (Scalar v)) (lex pyfloat r)))"
  by pat_completeness auto
termination
  by (relation "measure (\<lambda>(pyfloat, s). length s)")
    (auto dest: scanstring_shorter scan_scalar_shorter)

text \<open>
  \<open>dict[k] = v\<close>: a key already present keeps its position and takes the new value.
\<close>

fun dict_set :: "(string \<times> pyval) list \<Rightarrow> string \<Rightarrow> pyval \<Rightarrow> (string \<times> pyval) list" where
  "dict_set [] k v = [(k, v)]"
| "dict_set ((k', v') # kvs) k v =
     (if k' = k then (k, v) # kvs else (k', v') # dict_set kvs k v)"

text \<open>
  The containers that are open while the decoder reads on: a list with the items read so
  far, or a dict with the pairs read so far and the key whose value is being read.
\<close>

datatype frame = InList "pyval list" | InDict "(string \<times> pyval) list" string

fun parse_value :: "frame list \<Rightarrow> token list \<Rightarrow> pyval option"
  and parse_after :: "pyval \<Rightarrow> frame list \<Rightarrow> token list \<Rightarrow> pyval option"
  and parse_key :: "(string \<times> pyval) list \<Rightarrow> frame list \<Rightarrow> token list \<Rightarrow> pyval option"
where
  "parse_value st (Scalar v # ts) = parse_after v st ts"
| "parse_value st (LBracket # RBracket # ts) = parse_after (PyList []) st ts"
| "parse_value st (LBracket # ts) = parse_value (InList [] # st) ts"
| "parse_value st (LBrace # RBrace # ts) = parse_after (PyDict []) st ts"
| "parse_value st (LBrace # ts) = parse_key [] st ts"
| "parse_value st _ = None"
| "parse_after v [] ts = (if ts = [] then Some v else None)"
| "parse_after v (InList items # st) (Comma # ts) = parse_value (InList (items @ [v]) # st) ts"
| "parse_after v (InList items # st) (RBracket # ts) = parse_after (PyList (items @ [v])) st ts"
| "parse_after v (InDict kvs k # st) (Comma # ts) = parse_key (dict_set kvs k v) st ts"
| "parse_after v (InDict kvs k # st) (RBrace # ts) = parse_after (PyDict (dict_set kvs k v)) st ts"
| "parse_after v _ _ = None"
| "parse_key kvs st (Scalar (PyStr k) # Colon # ts) = parse_value (InDict kvs k # st) ts"
| "parse_key kvs st _ = None"

definition json_loads :: "(string \<Rightarrow> string) \<Rightarrow> string \<Rightarrow> pyval option" where
  "json_loads pyfloat s =
     (case lex pyfloat s of
        None \<Rightarrow> None
      | Some ts \<Rightarrow> parse_value [] ts)"

section \<open>The rule canonicaliser\<close>

text \<open>
  \<open>str(x)\<close> for the objects that reach the last branch of \<open>rec\<close>. (The two container cases
  never reach it; they are given so that the function is total.)
\<close>

fun str :: "pyval \<Rightarrow> string" where
  "str PyNone = ''None''"
| "str (PyBool b) = (if b then ''True'' else ''False'')"
| "str (PyInt i) = str_int i"
| "str (PyFloat r) = r"
| "str (PyStr s) = s"
| "str (PyList xs) = []"
| "str (PyDict kvs) = []"

text \<open>
  \<^verbatim>\<open>
  def rec(x):
      if isinstance(x, dict):
          return " ".join(f"{k}:{rec(v)}" for k, v in x.items())
      elif isinstance(x, list):
          return " ".join(rec(i) for i in x)
      else:
          return str(x)
  \<close>
\<close>

fun rec :: "pyval \<Rightarrow> string" where
  "rec (PyDict kvs) = join '' '' (map (\<lambda>(k, v). k @ '':'' @ rec v) kvs)"
| "rec (PyList xs) = join '' '' (map rec xs)"
| "rec x = str x"

text \<open>
  \<^verbatim>\<open>
  def flatten_rule(rule):
      if isinstance(rule, str):
          try:
              rule = json.loads(rule)
          except:
              return rule
      ...
      return rec(rule)
  \<close>
\<close>

definition flatten_rule :: "(string \<Rightarrow> string) \<Rightarrow> pyval \<Rightarrow> string" where
  "flatten_rule pyfloat rule =
     (case rule of
        PyStr s \<Rightarrow>
          (case json_loads pyfloat s of
             None \<Rightarrow> s
           | Some parsed \<Rightarrow> rec parsed)
      | _ \<Rightarrow> rec rule)"

text \<open>\<open>isinstance(rule, str)\<close>.\<close>

definition is_str :: "pyval \<Rightarrow> bool" where
  "is_str x = (case x of PyStr s \<Rightarrow> True | _ \<Rightarrow> False)"

text \<open>
  A stand-in for Python's float conversion where a concrete decoder is evaluated: it keeps
  the literal as written, which is the \<open>repr\<close> of the float for literals such as \<open>1.5\<close>.
\<close>

definition literal_float :: "string \<Rightarrow> string" where
  "literal_float l = l"

text \<open>
  The canonicaliser as the specification words it: a structural recursion over the rule
  body, objects as \<open>key:flatten(value)\<close> pairs and arrays as flattened elements, each
  joined by one space in the order given, scalars as their string representation.
\<close>

fun flatten_spec :: "pyval \<Rightarrow> string"
  and flatten_elements :: "pyval list \<Rightarrow> string"
  and flatten_pairs :: "(string \<times> pyval) list \<Rightarrow> string"
where
  "flatten_spec (PyDict kvs) = flatten_pairs kvs"
| "flatten_spec (PyList xs) = flatten_elements xs"
| "flatten_spec PyNone = ''None''"
| "flatten_spec (PyBool b) = (if b then ''True'' else ''False'')"
| "flatten_spec (PyInt i) = str_int i"
| "flatten_spec (PyFloat r) = r"
| "flatten_spec (PyStr s) = s"
| "flatten_elements [] = []"
| "flatten_elements [x] = flatten_spec x"
| "flatten_elements (x # y # zs) = flatten_spec x @ '' '' @ flatten_elements (y # zs)"
| "flatten_pairs [] = []"
| "flatten_pairs [(k, v)] = k @ '':'' @ flatten_spec v"
| "flatten_pairs ((k, v) # p # ps) = k @ '':'' @ flatten_spec v @ '' '' @ flatten_pairs (p # ps)"

text \<open>
  A string \<open>holds_json\<close> when it is itself a JSON text, that is when \<open>json.loads\<close> accepts
  it; a JSON text \<open>s\<close> encodes the value \<open>v\<close> when \<open>json.loads(s)\<close> is \<open>v\<close>.
\<close>

definition holds_json :: "(string \<Rightarrow> string) \<Rightarrow> pyval \<Rightarrow> bool" where
  "holds_json pyfloat x = (case x of PyStr t \<Rightarrow> json_loads pyfloat t \<noteq> None | _ \<Rightarrow> False)"

section \<open>Tables\<close>

text \<open>
  A pandas \<open>DataFrame\<close> with the default integer index: the number of rows and the columns
  in order, each column holding its cells from the first row to the last. Exceptions are
  values: a function that can raise returns \<open>py_error + result\<close>, and an exception that
  leaves a function ends the run.
\<close>

datatype py_error = KeyError | ValueError | TypeError | AttributeError

record dataframe =
  nrows :: nat
  cols :: "(string \<times> pyval list) list"

text \<open>\<open>df[c]\<close>.\<close>

definition get_column :: "dataframe \<Rightarrow> string \<Rightarrow> py_error + pyval list" where
  "get_column df c = (case map_of (cols df) c of None \<Rightarrow> Inl KeyError | Some cells \<Rightarrow> Inr cells)"

fun replace_column :: "string \<Rightarrow> pyval list \<Rightarrow> (string \<times> pyval list) list \<Rightarrow> (string \<times> pyval list) list" where
  "replace_column c cells [] = [(c, cells)]"
| "replace_column c cells ((c', cells') # rest) =
     (if c' = c then (c, cells) # rest else (c', cells') # replace_column c cells rest)"

text \<open>
  \<open>df[c] = cells\<close>: a column of that name is overwritten where it stands, a new one is put
  last. The cells must be as many as the rows; only a table without rows takes its rows from
  the cells, its other columns being filled with NaN.
\<close>

definition set_column :: "string \<Rightarrow> pyval list \<Rightarrow> dataframe \<Rightarrow> py_error + dataframe" where
  "set_column c cells df =
     (if nrows df = 0 \<and> cells \<noteq> [] then
        Inr \<lparr>nrows = length cells,
             cols = replace_column c cells
               (map (\<lambda>(c', cells'). (c', replicate (length cells) (PyFloat ''nan''))) (cols df))\<rparr>
      else if length cells \<noteq> nrows df then Inl ValueError
      else Inr \<lparr>nrows = nrows df, cols = replace_column c cells (cols df)\<rparr>)"

section \<open>The embedding stage\<close>

text \<open>
  \<^verbatim>\<open>
  def compute_embeddings(df):
      model = SentenceTransformer("all-MiniLM-L6-v2")
      df["text_rule"] = df["rule_json"].apply(flatten_rule)
      embeddings = model.encode(df["text_rule"].tolist(), normalize_embeddings=True)
      return embeddings
  \<close>
  The sentence-embedding model is the parameter \<open>encode\<close>, from the list of texts to the
  embedding matrix (one row of numbers per text). The table is changed in place; the model
  returns it beside the embeddings.
\<close>

type_synonym matrix = "real list list"

definition compute_embeddings ::
  "(string list \<Rightarrow> matrix) \<Rightarrow> (string \<Rightarrow> string) \<Rightarrow> dataframe \<Rightarrow> py_error + (dataframe \<times> matrix)" where
  "compute_embeddings encode pyfloat df =
     (case get_column df ''rule_json'' of
        Inl e \<Rightarrow> Inl e
      | Inr cells \<Rightarrow>
          let texts = map (flatten_rule pyfloat) cells in
          (case set_column ''text_rule'' (map PyStr texts) df of
             Inl e \<Rightarrow> Inl e
           | Inr df' \<Rightarrow> Inr (df', encode texts)))"

section \<open>The similarity report\<close>

text \<open>
  Similarities are floats; a float is a rational number, and the code only compares them
  and rounds them for the report, so they are modelled as reals. \<open>round(score, 3)\<close> scales by
  1000, rounds to the nearest integer with halves going to the even one, and scales back;
  the model does this exactly.
\<close>

definition rint :: "real \<Rightarrow> int" where
  "rint x =
     (let f = \<lfloor>x\<rfloor>; d = x - of_int f
      in if d < 1 / 2 then f else if 1 / 2 < d then f + 1 else if even f then f else f + 1)"

definition round3 :: "real \<Rightarrow> real" where
  "round3 x = of_int (rint (x * 1000)) / 1000"

text \<open>
  \<open>sort_values(ascending=False)\<close> is given no \<open>kind\<close>, so pandas sorts with its default
  \<open>quicksort\<close>, which the library documents as not stable. The sort is therefore a parameter
  \<open>argsort_desc\<close>: from the values to the positions in sorted order. What every sort
  guarantees is \<open>sorts_desc\<close>: the positions are a permutation and the values along them do
  not increase.
\<close>

definition sorts_desc :: "(real list \<Rightarrow> nat list) \<Rightarrow> bool" where
  "sorts_desc argsort_desc =
     (\<forall>xs. mset (argsort_desc xs) = mset [0..<length xs] \<and>
           sorted (rev (map ((!) xs) (argsort_desc xs))))"

text \<open>A \<open>Series\<close> as its (label, value) pairs; sorting one takes its pairs along the positions.\<close>

definition sort_values :: "(real list \<Rightarrow> nat list) \<Rightarrow> ('a \<times> real) list \<Rightarrow> ('a \<times> real) list" where
  "sort_values argsort_desc series = map ((!) series) (argsort_desc (map snd series))"

record neighbor =
  rule :: pyval
  similar_rule :: pyval
  similarity :: real

text \<open>
  \<open>pd.DataFrame(rows)\<close> for a list of dicts with the keys \<open>rule\<close>, \<open>similar_rule\<close>,
  \<open>similarity\<close>: the columns are the keys of the dicts, so a table built from no dict has no
  column at all.
\<close>

record neighbor_table =
  columns :: "string list"
  records :: "neighbor list"

definition DataFrame :: "neighbor list \<Rightarrow> neighbor_table" where
  "DataFrame rows =
     \<lparr>columns = (if rows = [] then [] else [''rule'', ''similar_rule'', ''similarity'']),
      records = rows\<rparr>"

text \<open>
  The body of the loop for the rule in row \<open>i\<close>: its row of the similarity matrix labelled
  by the rule names, without the entries labelled by the rule itself (\<open>drop(rule)\<close>), sorted,
  cut to \<open>top_k\<close> and rounded.
\<close>

definition neighbors ::
  "(real list \<Rightarrow> nat list) \<Rightarrow> pyval list \<Rightarrow> matrix \<Rightarrow> nat \<Rightarrow> nat \<Rightarrow> neighbor list" where
  "neighbors argsort_desc names sim_matrix top_k i =
     (let sims = take top_k (sort_values argsort_desc
                   (filter (\<lambda>(other, score). other \<noteq> names ! i) (zip names (sim_matrix ! i))))
      in map (\<lambda>(other, score).
           \<lparr>rule = names ! i, similar_rule = other, similarity = round3 score\<rparr>) sims)"

text \<open>
  \<open>cosine_similarity(X)\<close> is scikit-learn's. It first validates its argument
  (\<open>check_pairwise_arrays\<close>, \<open>check_array\<close>): an array without rows (0 samples) or without
  columns (0 features) is refused with \<open>ValueError\<close>, and so is a nested list whose rows
  differ in length. For a valid array of \<open>n\<close> rows it returns the \<open>n\<close> by \<open>n\<close> array whose
  entry \<open>(i, j)\<close> is the cosine of the angle between row \<open>i\<close> and row \<open>j\<close>. The cosine of
  two rows is the parameter \<open>cosine\<close>.
\<close>

definition check_array :: "matrix \<Rightarrow> bool" where
  "check_array X = (X \<noteq> [] \<and> hd X \<noteq> [] \<and> list_all (\<lambda>row. length row = length (hd X)) X)"

definition cosine_similarity :: "(real list \<Rightarrow> real list \<Rightarrow> real) \<Rightarrow> matrix \<Rightarrow> py_error + matrix" where
  "cosine_similarity cosine X =
     (if check_array X then Inr (map (\<lambda>x. map (cosine x) X) X) else Inl ValueError)"

text \<open>
  \<^verbatim>\<open>
  def compute_similarity_report(df, embeddings, top_k=3):
      sim_matrix = cosine_similarity(embeddings)
      sim_df = pd.DataFrame(sim_matrix, index=df["rulename"], columns=df["rulename"])
      rows = []
      for rule in sim_df.index:
          sims = sim_df.loc[rule].drop(rule).sort_values(ascending=False).head(top_k)
          for other, score in sims.items():
              rows.append({"rule": rule, "similar_rule": other, "similarity": round(score, 3)})
      return sim_df, pd.DataFrame(rows)
  \<close>
  \<open>sim_df\<close> is returned as the rule names with the matrix. Building it raises when the
  matrix has not one row per rule name. With a repeated rule name \<open>sim_df.loc[rule]\<close> is a
  table instead of a series and \<open>sort_values\<close> raises for its missing \<open>by\<close>.
\<close>

definition compute_similarity_report ::
  "(real list \<Rightarrow> real list \<Rightarrow> real) \<Rightarrow> (real list \<Rightarrow> nat list) \<Rightarrow> dataframe \<Rightarrow> matrix \<Rightarrow> nat
     \<Rightarrow> py_error + ((pyval list \<times> matrix) \<times> neighbor_table)" where
  "compute_similarity_report cosine argsort_desc df embeddings top_k =
     (case cosine_similarity cosine embeddings of
        Inl e \<Rightarrow> Inl e
      | Inr sim_matrix \<Rightarrow>
          (case get_column df ''rulename'' of
             Inl e \<Rightarrow> Inl e
           | Inr names \<Rightarrow>
               if length sim_matrix = length names
               then
                 if distinct names
                 then Inr ((names, sim_matrix),
                           DataFrame (concat (map (neighbors argsort_desc names sim_matrix top_k)
                                        [0..<length names])))
                 else Inl TypeError
               else Inl ValueError))"

section \<open>The duplicate filter of the application\<close>

text \<open>
  \<^verbatim>\<open>
  duplicates_df = report_df[report_df["similarity"] >= similarity_threshold]
  duplicates_df = duplicates_df.sort_values(by="similarity", ascending=False)
  \<close>
\<close>

definition duplicates_df ::
  "(real list \<Rightarrow> nat list) \<Rightarrow> neighbor_table \<Rightarrow> real \<Rightarrow> py_error + neighbor_table" where
  "duplicates_df argsort_desc report_df similarity_threshold =
     (if ''similarity'' \<notin> set (columns report_df) then Inl KeyError
      else
        let kept = filter (\<lambda>r. similarity_threshold \<le> similarity r) (records report_df)
        in Inr \<lparr>columns = columns report_df,
                records = map ((!) kept) (argsort_desc (map similarity kept))\<rparr>)"


subsection \<open>Concrete library functions and data for evaluation\<close>

text \<open>A sort that meets \<open>sorts_desc\<close>; it keeps equal values in their original order.\<close>

definition stable_argsort_desc :: "real list \<Rightarrow> nat list" where
  "stable_argsort_desc xs = sort_key (\<lambda>i. - (xs ! i)) [0..<length xs]"

text \<open>
  Modelled from the spec: the cosine similarity of two unit-normalized vectors is their dot
  product, \<open>sim[i][j] = embeddings[i] \<cdot> embeddings[j]\<close>.
\<close>

definition dot_product :: "real list \<Rightarrow> real list \<Rightarrow> real" where
  "dot_product x y = sum_list (map2 (*) x y)"

text \<open>A row of unit length: its squares add up to one.\<close>

definition unit_row :: "real list \<Rightarrow> bool" where
  "unit_row x = (sum_list (map (\<lambda>a. a * a) x) = 1)"

text \<open>Three rules; the first is equally similar (3/5) to the other two.\<close>

definition three_rules :: dataframe where
  "three_rules =
     \<lparr>nrows = 3,
      cols = [(''rulename'', [PyStr ''R1'', PyStr ''R2'', PyStr ''R3'']),
              (''rule_json'', [PyStr ''{\"age\": \">18\"}'', PyDict [(''age'', PyStr ''>21'')],
                               PyStr ''{bad json''])]\<rparr>"


definition one_rule :: dataframe where
  "one_rule =
     \<lparr>nrows = 1,
      cols = [(''rulename'', [PyStr ''R1'']),
              (''rule_json'', [PyDict [(''age'', PyStr ''>18'')]])]\<rparr>"



section \<open>Clustering and cluster labels\<close>

text \<open>
  \<open>DBSCAN(eps, min_samples, metric="cosine").fit_predict(X)\<close> is scikit-learn's; the model
  follows its steps. The cosine distance is a parameter \<open>cosine_distance\<close> on two rows.
  \<open>radius_neighbors\<close> gives for every row the positions of the rows within distance \<open>eps\<close> of
  it (the row itself is among them when its distance to itself is at most \<open>eps\<close>); a row is a
  core sample when it has at least \<open>min_samples\<close> such neighbors. An empty matrix is refused.
\<close>

definition radius_neighbors ::
  "(real list \<Rightarrow> real list \<Rightarrow> real) \<Rightarrow> real \<Rightarrow> matrix \<Rightarrow> nat list list" where
  "radius_neighbors cosine_distance eps X =
     map (\<lambda>x. filter (\<lambda>j. cosine_distance x (X ! j) \<le> eps) [0..<length X]) X"

lemma count_list_update_less:
  "i < length labels \<Longrightarrow> labels ! i = a \<Longrightarrow> b \<noteq> a \<Longrightarrow>
     count_list (labels[i := b]) a < count_list labels a"
proof (induction labels arbitrary: i)
  case Nil
  then show ?case by simp
next
  case (Cons x labels)
  then show ?case
    by (cases i) auto
qed

text \<open>
  The labelling loop (\<open>dbscan_inner\<close>): all labels start at \<open>-1\<close> (noise). The depth-first
  search from \<open>i\<close> gives the label \<open>label_num\<close> to every unlabelled sample it reaches and
  pushes the unlabelled neighbors of the core samples among them; the top of the stack is
  the head of the list.
  \<^verbatim>\<open>
      while True:
          if labels[i] == -1:
              labels[i] = label_num
              if is_core[i]:
                  neighb = neighborhoods[i]
                  for i in range(neighb.shape[0]):
                      v = neighb[i]
                      if labels[v] == -1:
                          push(stack, v)
          if stack.size() == 0:
              break
          i = stack.back()
          stack.pop_back()
  \<close>
\<close>

function dbscan_dfs ::
  "bool list \<Rightarrow> nat list list \<Rightarrow> nat \<Rightarrow> nat \<Rightarrow> nat list \<Rightarrow> int list \<Rightarrow> int list" where
  "dbscan_dfs is_core neighborhoods label_num i stack labels =
     (if i < length labels \<and> labels ! i = - 1 then
        (let labels' = labels[i := int label_num];
             stack' = (if is_core ! i
                       then rev (filter (\<lambda>v. labels' ! v = - 1) (neighborhoods ! i)) @ stack
                       else stack)
         in case stack' of
              [] \<Rightarrow> labels'
            | j # rest \<Rightarrow> dbscan_dfs is_core neighborhoods label_num j rest labels')
      else
        (case stack of
           [] \<Rightarrow> labels
         | j # rest \<Rightarrow> dbscan_dfs is_core neighborhoods label_num j rest labels))"
  by pat_completeness auto
termination
  by (relation "(\<lambda>(c, n, l, i, st, lb). count_list lb (- 1)) <*mlex*>
                measure (\<lambda>(c, n, l, i, st, lb). length st)")
    (auto simp: wf_mlex mlex_less mlex_leq count_list_update_less)

declare dbscan_dfs.simps [simp del]

text \<open>
  \<^verbatim>\<open>
  for i in range(labels.shape[0]):
      if labels[i] != -1 or not is_core[i]:
          continue
      ...  # the search from i
      label_num += 1
  \<close>
\<close>

definition dbscan_step ::
  "bool list \<Rightarrow> nat list list \<Rightarrow> int list \<times> nat \<Rightarrow> nat \<Rightarrow> int list \<times> nat" where
  "dbscan_step is_core neighborhoods state i =
     (case state of (labels, label_num) \<Rightarrow>
        if labels ! i \<noteq> - 1 \<or> \<not> is_core ! i then (labels, label_num)
        else (dbscan_dfs is_core neighborhoods label_num i [] labels, Suc label_num))"

definition dbscan_inner :: "bool list \<Rightarrow> nat list list \<Rightarrow> int list \<Rightarrow> int list" where
  "dbscan_inner is_core neighborhoods labels =
     fst (foldl (dbscan_step is_core neighborhoods) (labels, 0) [0..<length labels])"

definition fit_predict ::
  "(real list \<Rightarrow> real list \<Rightarrow> real) \<Rightarrow> real \<Rightarrow> nat \<Rightarrow> matrix \<Rightarrow> py_error + int list" where
  "fit_predict cosine_distance eps min_samples X =
     (if X = [] then Inl ValueError
      else
        let neighborhoods = radius_neighbors cosine_distance eps X;
            is_core = map (\<lambda>neighbors. min_samples \<le> length neighbors) neighborhoods
        in Inr (dbscan_inner is_core neighborhoods (replicate (length X) (- 1))))"

text \<open>
  A fitted \<open>CountVectorizer\<close>: its feature names in feature order, and the counts of the
  features in one text. Fitting (tokenising, dropping the English stop words, building the
  vocabulary; it raises on an empty vocabulary) is the parameter \<open>fit\<close> of \<open>cluster_rules\<close>.
\<close>

record vectorizer =
  feature_names :: "string list"
  transform :: "string \<Rightarrow> nat list"

text \<open>
  The texts handed to the vectorizer must be strings; it raises on any other cell.
\<close>

fun documents :: "pyval list \<Rightarrow> py_error + string list" where
  "documents [] = Inr []"
| "documents (PyStr s # cells) =
     (case documents cells of Inl e \<Rightarrow> Inl e | Inr texts \<Rightarrow> Inr (s # texts))"
| "documents (PyFloat r # cells) = Inl ValueError"
| "documents (x # cells) = Inl AttributeError"


definition token_counts :: "vectorizer \<Rightarrow> string list \<Rightarrow> nat list" where
  "token_counts vec texts =
     map (\<lambda>j. sum_list (map (\<lambda>text. transform vec text ! j) texts))
       [0..<length (feature_names vec)]"

definition top_tokens ::
  "(nat list \<Rightarrow> nat list) \<Rightarrow> vectorizer \<Rightarrow> int list \<Rightarrow> string list \<Rightarrow> int \<Rightarrow> nat \<Rightarrow> string" where
  "top_tokens argsort vec cluster_id text_rule cid top_n =
     (let texts = map snd (filter (\<lambda>(c, text). c = cid) (zip cluster_id text_rule))
      in if texts = [] then []
         else
           let counts = token_counts vec texts;
               top_idx = take top_n (rev (argsort counts))
           in join '', '' (map ((!) (feature_names vec)) top_idx))"

text \<open>
  \<^verbatim>\<open>
  def cluster_rules(df, embeddings):
      cluster_model = DBSCAN(eps=0.25, min_samples=1, metric="cosine")
      labels = cluster_model.fit_predict(embeddings)
      df["cluster_id"] = labels
      vectorizer = CountVectorizer(stop_words="english")
      X = vectorizer.fit_transform(df["text_rule"])
      feature_names = np.array(vectorizer.get_feature_names_out())
      ...
      cluster_labels = {cid: top_tokens(cid) for cid in sorted(df["cluster_id"].unique())}
      df["cluster_label"] = df["cluster_id"].map(cluster_labels)
      return df, cluster_labels
  \<close>
  \<open>Series.map\<close> with a dict gives NaN for a key the dict lacks.
\<close>

definition cluster_rules ::
  "(real list \<Rightarrow> real list \<Rightarrow> real) \<Rightarrow> (string list \<Rightarrow> py_error + vectorizer) \<Rightarrow>
     (nat list \<Rightarrow> nat list) \<Rightarrow> dataframe \<Rightarrow> matrix \<Rightarrow>
     py_error + (dataframe \<times> (int \<times> string) list)" where
  "cluster_rules cosine_distance fit argsort df embeddings =
     (case fit_predict cosine_distance (1 / 4) 1 embeddings of
        Inl e \<Rightarrow> Inl e
      | Inr labels \<Rightarrow>
     (case set_column ''cluster_id'' (map PyInt labels) df of
        Inl e \<Rightarrow> Inl e
      | Inr df1 \<Rightarrow>
     (case get_column df1 ''text_rule'' of
        Inl e \<Rightarrow> Inl e
      | Inr cells \<Rightarrow>
     (case documents cells of
        Inl e \<Rightarrow> Inl e
      | Inr text_rule \<Rightarrow>
     (case fit text_rule of
        Inl e \<Rightarrow> Inl e
      | Inr vec \<Rightarrow>
          let cluster_labels =
                map (\<lambda>cid. (cid, top_tokens argsort vec labels text_rule cid 3))
                  (sort (remdups labels));
              mapped = map (\<lambda>c. case map_of cluster_labels c of
                                    Some label \<Rightarrow> PyStr label
                                  | None \<Rightarrow> PyFloat ''nan'') labels
          in (case set_column ''cluster_label'' mapped df1 of
                Inl e \<Rightarrow> Inl e
              | Inr df2 \<Rightarrow> Inr (df2, cluster_labels)))))))"

text \<open>The rules of a cluster: the rows whose cluster id is \<open>cid\<close>.\<close>

definition members :: "int list \<Rightarrow> int \<Rightarrow> nat set" where
  "members cluster_id cid = set (filter (\<lambda>i. cluster_id ! i = cid) [0..<length cluster_id])"

text \<open>A column name is added to the names of a table unless it is among them.\<close>

definition with_column :: "string \<Rightarrow> string list \<Rightarrow> string list" where
  "with_column c names = (if c \<in> set names then names else names @ [c])"

subsection \<open>Concrete library functions and data for evaluation, continued\<close>

text \<open>
  The cosine distance of two rows of length one is one minus their dot product. A sort of
  positions that keeps equal values in their original order (numpy's default sort does so
  on short arrays on its generic code path).
\<close>

definition unit_distance :: "real list \<Rightarrow> real list \<Rightarrow> real" where
  "unit_distance x y = 1 - sum_list (map2 (*) x y)"

definition stable_argsort :: "nat list \<Rightarrow> nat list" where
  "stable_argsort xs = sort_key (\<lambda>i. xs ! i) [0..<length xs]"

text \<open>
  A count vectorizer for ASCII texts with a given list of stop words: a token is a maximal
  run of at least two letters, digits or underscores, in lower case; the vocabulary is the
  sorted set of the tokens of all texts that are no stop words; fitting raises when it is
  empty.
\<close>

definition is_word_char :: "char \<Rightarrow> bool" where
  "is_word_char c =
     (let n = (of_char c :: nat)
      in (48 \<le> n \<and> n \<le> 57) \<or> (65 \<le> n \<and> n \<le> 90) \<or> n = 95 \<or> (97 \<le> n \<and> n \<le> 122))"

definition lower :: "char \<Rightarrow> char" where
  "lower c =
     (let n = (of_char c :: nat) in if 65 \<le> n \<and> n \<le> 90 then char_of (n + 32) else c)"

fun tokens_of :: "string \<Rightarrow> string \<Rightarrow> string list" where
  "tokens_of word [] = (if 2 \<le> length word then [word] else [])"
| "tokens_of word (c # cs) =
     (if is_word_char c then tokens_of (word @ [lower c]) cs
      else (if 2 \<le> length word then [word] else []) @ tokens_of [] cs)"

definition analyze :: "string list \<Rightarrow> string \<Rightarrow> string list" where
  "analyze stop_words text = filter (\<lambda>w. w \<notin> set stop_words) (tokens_of [] text)"

definition count_vectorizer :: "string list \<Rightarrow> string list \<Rightarrow> py_error + vectorizer" where
  "count_vectorizer stop_words texts =
     (let vocabulary = sort (remdups (concat (map (analyze stop_words) texts)))
      in if vocabulary = [] then Inl ValueError
         else Inr \<lparr>feature_names = vocabulary,
                   transform = (\<lambda>text. map (count_list (analyze stop_words text)) vocabulary)\<rparr>)"

definition stop_words_sample :: "string list" where
  "stop_words_sample = [''and'', ''or'', ''the'', ''is'', ''of'', ''not'']"

text \<open>
  The three rules after the embedding stage, embeddings that put the first two rules within
  distance 1/5 of each other and the third far away, and a table with one rule whose four
  tokens occur once each.
\<close>

definition three_rules_flat :: dataframe where
  "three_rules_flat =
     \<lparr>nrows = 3,
      cols = [(''rulename'', [PyStr ''R1'', PyStr ''R2'', PyStr ''R3'']),
              (''rule_json'', [PyStr ''{\"age\": \">18\"}'', PyDict [(''age'', PyStr ''>21'')],
                               PyStr ''{bad json'']),
              (''text_rule'', [PyStr ''age:>18'', PyStr ''age:>21'', PyStr ''{bad json''])]\<rparr>"

definition close_embeddings :: matrix where
  "close_embeddings = [[1, 0, 0], [4 / 5, 3 / 5, 0], [0, 0, 1]]"


text \<open>A table is well formed when every column has one cell per row.\<close>

definition table_ok :: "dataframe \<Rightarrow> bool" where
  "table_ok df = list_all (\<lambda>(c, cells). length cells = nrows df) (cols df)"


text \<open>The three rules as \<open>cluster_rules\<close> leaves them.\<close>

definition three_rules_clustered :: dataframe where
  "three_rules_clustered =
     \<lparr>nrows = 3,
      cols = [(''rulename'', [PyStr ''R1'', PyStr ''R2'', PyStr ''R3'']),
              (''rule_json'', [PyStr ''{\"age\": \">18\"}'', PyDict [(''age'', PyStr ''>21'')],
                               PyStr ''{bad json'']),
              (''text_rule'', [PyStr ''age:>18'', PyStr ''age:>21'', PyStr ''{bad json'']),
              (''cluster_id'', [PyInt 0, PyInt 0, PyInt 1]),
              (''cluster_label'', [PyStr ''age, 21, 18'', PyStr ''age, 21, 18'',
                                   PyStr ''json, bad, age''])]\<rparr>"

text \<open>
  A table that already has a \<open>text_rule\<close> column, and the one-rule table as \<open>cluster_rules\<close>
  leaves it.
\<close>

definition stale_table :: dataframe where
  "stale_table =
     \<lparr>nrows = 1,
      cols = [(''rulename'', [PyStr ''R1'']),
              (''text_rule'', [PyStr ''draft'']),
              (''rule_json'', [PyDict [(''age'', PyStr ''>18'')]])]\<rparr>"




section \<open>Properties of the canonicaliser\<close>

lemma flatten_rule_not_str: "\<not> is_str x \<Longrightarrow> flatten_rule pyfloat x = rec x"
  by (cases x) (simp_all add: flatten_rule_def is_str_def)

lemma flatten_rule_parsed:
  "json_loads pyfloat s = Some x \<Longrightarrow> flatten_rule pyfloat (PyStr s) = rec x"
  by (simp add: flatten_rule_def)

lemma flatten_rule_unparsable:
  "json_loads pyfloat s = None \<Longrightarrow> flatten_rule pyfloat (PyStr s) = s"
  by (simp add: flatten_rule_def)

lemma rec_is_flatten_spec:
  "rec x = flatten_spec x"
  "join '' '' (map rec xs) = flatten_elements xs"
  "join '' '' (map (\<lambda>(k, v). k @ '':'' @ rec v) kvs) = flatten_pairs kvs"
  by (induction x and xs and kvs rule: flatten_spec_flatten_elements_flatten_pairs.induct)
    simp_all

lemma rec_nested:
  "rec x = (case x of PyStr s \<Rightarrow> s | _ \<Rightarrow> flatten_rule pyfloat x)"
  by (cases x) (simp_all add: flatten_rule_def)

text \<open>Evaluating the decoder on concrete texts.\<close>

lemmas scan_defs = json_loads_def is_ws_def quote_def backslash_def scan_scalar_def
  scan_constant_def starts_with_def scan_number_def match_number_def match_int_def
  match_frac_def match_exp_def is_digit_def int_of_literal_def int_of_digits_def digit_val_def

lemma loads_bad_json: "json_loads pyfloat ''{bad json'' = None"
  by (simp add: scan_defs)

lemma loads_one_two: "json_loads pyfloat ''[1, 2]'' = Some (PyList [PyInt 1, PyInt 2])"
  by (simp add: scan_defs)

lemma loads_age: "json_loads pyfloat ''{\"age\": \">18\"}'' = Some (PyDict [(''age'', PyStr ''>18'')])"
  by (simp add: scan_defs)

text \<open>
  C3 (as amended). For every JSON text \<open>s\<close> that encodes a value \<open>v\<close>, where \<open>v\<close> is not a string
  that itself holds JSON text, \<open>flatten_rule\<close> of the text equals \<open>flatten_rule\<close> of the
  already-parsed value.
\<close>

theorem flatten_rule_round_trip:
  assumes "json_loads pyfloat s = Some x" and "\<not> holds_json pyfloat x"
  shows "flatten_rule pyfloat (PyStr s) = flatten_rule pyfloat x"
proof (cases "is_str x")
  case True
  then obtain t where x: "x = PyStr t"
    by (cases x) (simp_all add: is_str_def)
  with assms(2) have "json_loads pyfloat t = None"
    by (simp add: holds_json_def)
  then have "flatten_rule pyfloat x = rec x"
    by (simp add: x flatten_rule_unparsable)
  with assms(1) show ?thesis
    by (simp add: flatten_rule_parsed)
next
  case False
  with assms(1) show ?thesis
    by (simp add: flatten_rule_parsed flatten_rule_not_str)
qed

theorem flatten_rule_round_trip_witness:
  "json_loads literal_float ''{\"age\": \">18\"}'' = Some (PyDict [(''age'', PyStr ''>18'')]) \<and>
   \<not> holds_json literal_float (PyDict [(''age'', PyStr ''>18'')]) \<and>
   flatten_rule literal_float (PyStr ''{\"age\": \">18\"}'') =
     flatten_rule literal_float (PyDict [(''age'', PyStr ''>18'')])"
proof -
  have a: "json_loads literal_float ''{\"age\": \">18\"}'' = Some (PyDict [(''age'', PyStr ''>18'')])"
    by (rule loads_age)
  have b: "\<not> holds_json literal_float (PyDict [(''age'', PyStr ''>18'')])"
    by (simp add: holds_json_def)
  from a b flatten_rule_round_trip [OF a b] show ?thesis
    by blast
qed

text \<open>
  C3 as stated fails: the JSON text \<open>"[]"\<close> (with its quotes) encodes the string \<open>[]\<close>;
  \<open>flatten_rule\<close> of the text is \<open>[]\<close>, but \<open>flatten_rule\<close> of the string \<open>[]\<close> parses it as an
  empty array and returns the empty text.
\<close>

theorem flatten_rule_round_trip_counterexample:
  "json_loads literal_float ''\"[]\"'' = Some (PyStr ''[]'') \<and>
   flatten_rule literal_float (PyStr ''\"[]\"'') = ''[]'' \<and>
   flatten_rule literal_float (PyStr ''[]'') = []"
  by code_simp

text \<open>
  C4. For every structured (non-string) rule body, \<open>flatten_rule\<close> is the structural
  recursion of the specification: an object becomes its \<open>key:flatten(value)\<close> pairs joined
  by one space in the object's own order, an array its flattened elements joined by one
  space in order, a scalar its string representation; nothing else is added or removed.
\<close>

theorem flatten_rule_structural:
  "\<not> is_str x \<Longrightarrow> flatten_rule pyfloat x = flatten_spec x"
  by (simp add: flatten_rule_not_str rec_is_flatten_spec(1))

theorem flatten_rule_structural_witness:
  "\<not> is_str (PyDict [(''age'', PyStr ''>18''), (''in'', PyList [PyInt 7, PyNone, PyStr ''a  b''])]) \<and>
   flatten_rule literal_float
     (PyDict [(''age'', PyStr ''>18''), (''in'', PyList [PyInt 7, PyNone, PyStr ''a  b''])])
     = ''age:>18 in:7 None a  b''"
  using flatten_rule_structural
    [of "PyDict [(''age'', PyStr ''>18''), (''in'', PyList [PyInt 7, PyNone, PyStr ''a  b''])]"
      literal_float]
  by (simp add: is_str_def str_int_def decimal.simps digit_chr_def)

text \<open>
  C5. \<open>flatten_rule\<close> has no failing outcome: on a string that \<open>json.loads\<close> rejects it
  returns the string itself, on a string that parses it returns the flattening of the
  parsed value; in particular the string \<open>{bad json\<close> comes back unchanged.
\<close>

theorem flatten_rule_parse_fallback:
  "(json_loads pyfloat s = None \<longrightarrow> flatten_rule pyfloat (PyStr s) = s) \<and>
   (json_loads pyfloat s = Some x \<longrightarrow> flatten_rule pyfloat (PyStr s) = rec x) \<and>
   flatten_rule pyfloat (PyStr ''{bad json'') = ''{bad json''"
  by (simp add: flatten_rule_parsed flatten_rule_unparsable loads_bad_json)

theorem flatten_rule_parse_fallback_witness:
  "json_loads literal_float ''age > 18'' = None \<and>
   flatten_rule literal_float (PyStr ''age > 18'') = ''age > 18'' \<and>
   json_loads literal_float ''[1, 2]'' = Some (PyList [PyInt 1, PyInt 2]) \<and>
   flatten_rule literal_float (PyStr ''[1, 2]'') = rec (PyList [PyInt 1, PyInt 2])"
proof -
  have a: "json_loads literal_float ''age > 18'' = None"
    by (simp add: scan_defs)
  have b: "json_loads literal_float ''[1, 2]'' = Some (PyList [PyInt 1, PyInt 2])"
    by (rule loads_one_two)
  from flatten_rule_parse_fallback [of literal_float "''age > 18''"] a
  have c: "flatten_rule literal_float (PyStr ''age > 18'') = ''age > 18''"
    by blast
  from flatten_rule_parse_fallback [of literal_float "''[1, 2]''" "PyList [PyInt 1, PyInt 2]"] b
  have d: "flatten_rule literal_float (PyStr ''[1, 2]'') = rec (PyList [PyInt 1, PyInt 2])"
    by blast
  from a b c d show ?thesis
    by blast
qed

text \<open>
  C10. Only a top-level string is parsed. Inside an object or an array a string value is
  rendered as it is, every other value as \<open>flatten_rule\<close> renders it; so the string
  \<open>[1, 2]\<close> inside an array stays \<open>[1, 2]\<close>, while as the top-level argument it is parsed
  and flattened to \<open>1 2\<close>.
\<close>

theorem nested_strings_verbatim:
  "flatten_rule pyfloat (PyList xs) =
     join '' '' (map (\<lambda>x. case x of PyStr s \<Rightarrow> s | _ \<Rightarrow> flatten_rule pyfloat x) xs) \<and>
   flatten_rule pyfloat (PyDict kvs) =
     join '' '' (map (\<lambda>(k, v). k @ '':'' @
        (case v of PyStr s \<Rightarrow> s | _ \<Rightarrow> flatten_rule pyfloat v)) kvs) \<and>
   flatten_rule pyfloat (PyList [PyStr ''[1, 2]'']) = ''[1, 2]'' \<and>
   flatten_rule pyfloat (PyStr ''[1, 2]'') = ''1 2''"
proof -
  have "flatten_rule pyfloat (PyList xs) = join '' '' (map rec xs)"
    by (simp add: flatten_rule_def)
  moreover have "flatten_rule pyfloat (PyDict kvs) =
      join '' '' (map (\<lambda>(k, v). k @ '':'' @ rec v) kvs)"
    by (simp add: flatten_rule_def)
  moreover have "flatten_rule pyfloat (PyList [PyStr ''[1, 2]'']) = ''[1, 2]''"
    by (simp add: flatten_rule_def)
  moreover have "flatten_rule pyfloat (PyStr ''[1, 2]'') = ''1 2''"
    by (simp add: flatten_rule_parsed [OF loads_one_two] str_int_def decimal.simps digit_chr_def)
  ultimately show ?thesis
    by (simp add: rec_nested [of _ pyfloat, symmetric])
qed

section \<open>Properties of the similarity report\<close>



lemma rint_close: "\<bar>of_int (rint x) - x\<bar> \<le> 1 / 2"
  unfolding rint_def Let_def
  by (auto simp: abs_if) linarith+

lemma round3_close: "\<bar>round3 x - x\<bar> \<le> 1 / 2000"
proof -
  have "\<bar>of_int (rint (x * 1000)) - x * 1000\<bar> \<le> 1 / 2"
    by (rule rint_close)
  then show ?thesis
    by (simp add: round3_def abs_if field_simps split: if_splits)
qed



lemma argsort_bounds:
  assumes "sorts_desc a"
  shows "set (a xs) = {0..<length xs}" and "length (a xs) = length xs" and "distinct (a xs)"
proof -
  from assms have m: "mset (a xs) = mset [0..<length xs]"
    by (simp add: sorts_desc_def)
  from m show "set (a xs) = {0..<length xs}"
    by (metis mset_eq_setD set_upt)
  from m show "length (a xs) = length xs"
    by (metis mset_eq_length length_upt diff_zero)
  from m show "distinct (a xs)"
    by (metis distinct_upt mset_eq_imp_distinct_iff)
qed










lemma sorted_rev_neg: "sorted (map (\<lambda>i. - f i) ys) \<Longrightarrow> sorted (rev (map f ys))"
  for f :: "'a \<Rightarrow> real"
  by (induction ys) (auto simp: sorted_append)

lemma sorts_desc_stable: "sorts_desc stable_argsort_desc"
  unfolding sorts_desc_def stable_argsort_desc_def
  by (auto intro!: sorted_rev_neg [where f = "\<lambda>i. xs ! i" for xs, simplified])




section \<open>Properties of the clustering stage\<close>

lemma dbscan_dfs_length:
  "length (dbscan_dfs is_core neighborhoods label_num i stack labels) = length labels"
proof (induction is_core neighborhoods label_num i stack labels rule: dbscan_dfs.induct)
  case (1 is_core neighborhoods label_num i stack labels)
  show ?case
    by (subst dbscan_dfs.simps) (auto simp: Let_def "1.IH" split: list.splits)
qed

lemma dbscan_dfs_keeps:
  "k < length labels \<Longrightarrow> labels ! k \<noteq> - 1 \<Longrightarrow>
     dbscan_dfs is_core neighborhoods label_num i stack labels ! k = labels ! k"
proof (induction is_core neighborhoods label_num i stack labels rule: dbscan_dfs.induct)
  case (1 is_core neighborhoods label_num i stack labels)
  show ?case
  proof (cases "i < length labels \<and> labels ! i = - 1")
    case True
    with "1.prems" have ki: "k \<noteq> i" by auto
    let ?labels = "labels[i := int label_num]"
    let ?stack = "if is_core ! i
        then rev (filter (\<lambda>v. ?labels ! v = - 1) (neighborhoods ! i)) @ stack else stack"
    have k': "k < length ?labels" "?labels ! k \<noteq> - 1"
      using "1.prems" ki by simp_all
    show ?thesis
    proof (cases ?stack)
      case Nil
      with True ki show ?thesis
        by (subst dbscan_dfs.simps) (simp add: Let_def)
    next
      case (Cons j rest)
      from "1.IH"(1) [OF True refl refl Cons k'] True Cons ki show ?thesis
        by (subst dbscan_dfs.simps) (simp add: Let_def)
    qed
  next
    case False
    show ?thesis
    proof (cases stack)
      case Nil
      with False show ?thesis
        by (subst dbscan_dfs.simps) auto
    next
      case (Cons j rest)
      from "1.IH"(2) [OF False Cons "1.prems"] False Cons show ?thesis
        by (subst dbscan_dfs.simps) auto
    qed
  qed
qed

lemma dbscan_dfs_labels_start:
  assumes "i < length labels"
  shows "dbscan_dfs is_core neighborhoods label_num i stack labels ! i \<noteq> - 1"
proof (cases "labels ! i = - 1")
  case False
  with assms show ?thesis
    by (simp add: dbscan_dfs_keeps)
next
  case True
  let ?labels = "labels[i := int label_num]"
  let ?stack = "if is_core ! i
      then rev (filter (\<lambda>v. ?labels ! v = - 1) (neighborhoods ! i)) @ stack else stack"
  have k: "i < length ?labels" "?labels ! i \<noteq> - 1"
    using assms by simp_all
  show ?thesis
  proof (cases ?stack)
    case Nil
    with True assms show ?thesis
      by (subst dbscan_dfs.simps) (simp add: Let_def)
  next
    case (Cons j rest)
    have "dbscan_dfs is_core neighborhoods label_num i stack labels =
          dbscan_dfs is_core neighborhoods label_num j rest ?labels"
      using True assms Cons by (subst dbscan_dfs.simps) (simp add: Let_def)
    with dbscan_dfs_keeps [OF k, of is_core neighborhoods label_num j rest] k show ?thesis
      by simp
  qed
qed

lemma dbscan_dfs_bound:
  "\<forall>x \<in> set labels. - 1 \<le> x \<Longrightarrow>
     \<forall>x \<in> set (dbscan_dfs is_core neighborhoods label_num i stack labels). - 1 \<le> x"
proof (induction is_core neighborhoods label_num i stack labels rule: dbscan_dfs.induct)
  case (1 is_core neighborhoods label_num i stack labels)
  let ?labels = "labels[i := int label_num]"
  have b: "\<forall>x \<in> set ?labels. - 1 \<le> x"
    using "1.prems" by (auto dest!: set_update_subset_insert [THEN subsetD])
  show ?case
  proof (cases "i < length labels \<and> labels ! i = - 1")
    case True
    let ?stack = "if is_core ! i
        then rev (filter (\<lambda>v. ?labels ! v = - 1) (neighborhoods ! i)) @ stack else stack"
    show ?thesis
    proof (cases ?stack)
      case Nil
      with True b show ?thesis
        by (subst dbscan_dfs.simps) (simp add: Let_def)
    next
      case (Cons j rest)
      from "1.IH"(1) [OF True refl refl Cons b] True Cons show ?thesis
        by (subst dbscan_dfs.simps) (simp add: Let_def)
    qed
  next
    case False
    show ?thesis
    proof (cases stack)
      case Nil
      with False "1.prems" show ?thesis
        by (subst dbscan_dfs.simps) auto
    next
      case (Cons j rest)
      from "1.IH"(2) [OF False Cons "1.prems"] False Cons show ?thesis
        by (subst dbscan_dfs.simps) auto
    qed
  qed
qed

lemma dbscan_fold_invariant:
  assumes "m \<le> n" and "length labels = n" and "\<forall>x \<in> set labels. - 1 \<le> x"
  shows "case foldl (dbscan_step is_core neighborhoods) (labels, l) [0..<m] of
           (labels', l') \<Rightarrow> length labels' = n \<and> (\<forall>x \<in> set labels'. - 1 \<le> x) \<and>
             (\<forall>k < m. is_core ! k \<longrightarrow> labels' ! k \<noteq> - 1)"
  using assms(1)
proof (induction m)
  case 0
  with assms show ?case by simp
next
  case (Suc m)
  obtain lb l' where f: "foldl (dbscan_step is_core neighborhoods) (labels, l) [0..<m] = (lb, l')"
    by (cases "foldl (dbscan_step is_core neighborhoods) (labels, l) [0..<m]")
  from Suc f have len: "length lb = n" and bnd: "\<forall>x \<in> set lb. - 1 \<le> x"
    and prev: "\<forall>k < m. is_core ! k \<longrightarrow> lb ! k \<noteq> - 1"
    by auto
  from Suc.prems len have m: "m < length lb" by simp
  have st: "foldl (dbscan_step is_core neighborhoods) (labels, l) [0..<Suc m] =
      dbscan_step is_core neighborhoods (lb, l') m"
    using f by simp
  show ?case
  proof (cases "lb ! m \<noteq> - 1 \<or> \<not> is_core ! m")
    case True
    then have "dbscan_step is_core neighborhoods (lb, l') m = (lb, l')"
      by (auto simp: dbscan_step_def)
    with len bnd prev True show ?thesis
      unfolding st by (auto simp: less_Suc_eq)
  next
    case False
    let ?lb = "dbscan_dfs is_core neighborhoods l' m [] lb"
    have "length ?lb = n"
      by (simp add: dbscan_dfs_length len)
    moreover have "\<forall>x \<in> set ?lb. - 1 \<le> x"
      by (rule dbscan_dfs_bound [OF bnd])
    moreover have "?lb ! m \<noteq> - 1"
      by (rule dbscan_dfs_labels_start [OF m])
    moreover have "?lb ! k \<noteq> - 1" if "k < m" "is_core ! k" for k
    proof -
      from that prev have "lb ! k \<noteq> - 1" by simp
      moreover from that m have "k < length lb" by simp
      ultimately show ?thesis
        by (simp add: dbscan_dfs_keeps)
    qed
    moreover from False have "dbscan_step is_core neighborhoods (lb, l') m = (?lb, Suc l')"
      by (auto simp: dbscan_step_def)
    ultimately show ?thesis
      unfolding st by (auto simp: less_Suc_eq)
  qed
qed

lemma dbscan_inner_all_core:
  assumes "\<forall>x \<in> set labels. - 1 \<le> x" and "\<forall>k < length labels. is_core ! k"
  shows "length (dbscan_inner is_core neighborhoods labels) = length labels"
    and "\<forall>x \<in> set (dbscan_inner is_core neighborhoods labels). 0 \<le> x"
proof -
  let ?r = "foldl (dbscan_step is_core neighborhoods) (labels, 0) [0..<length labels]"
  from dbscan_fold_invariant [OF le_refl refl assms(1), of is_core neighborhoods 0]
  have len: "length (fst ?r) = length labels" and bnd: "\<forall>x \<in> set (fst ?r). - 1 \<le> x"
    and lab: "\<forall>k < length labels. is_core ! k \<longrightarrow> fst ?r ! k \<noteq> - 1"
    by (auto split: prod.splits)
  from len show "length (dbscan_inner is_core neighborhoods labels) = length labels"
    by (simp add: dbscan_inner_def)
  show "\<forall>x \<in> set (dbscan_inner is_core neighborhoods labels). 0 \<le> x"
  proof
    fix x
    assume "x \<in> set (dbscan_inner is_core neighborhoods labels)"
    then obtain k where k: "k < length labels" and x: "x = fst ?r ! k"
      using len by (auto simp: dbscan_inner_def in_set_conv_nth)
    from k lab assms(2) have "fst ?r ! k \<noteq> - 1" by simp
    moreover from k len bnd have "- 1 \<le> fst ?r ! k" by simp
    ultimately show "0 \<le> x"
      using x by simp
  qed
qed

lemma radius_neighbors_self:
  assumes "i < length X" and "cosine_distance (X ! i) (X ! i) \<le> eps"
  shows "i \<in> set (radius_neighbors cosine_distance eps X ! i)"
  using assms by (simp add: radius_neighbors_def)

lemma fit_predict_no_noise:
  assumes "fit_predict cosine_distance eps min_samples X = Inr labels"
    and "\<forall>x \<in> set X. cosine_distance x x \<le> eps" and "min_samples \<le> 1"
  shows "length labels = length X" and "\<forall>c \<in> set labels. 0 \<le> c"
proof -
  let ?N = "radius_neighbors cosine_distance eps X"
  let ?C = "map (\<lambda>neighbors. min_samples \<le> length neighbors) ?N"
  from assms(1) have l: "labels = dbscan_inner ?C ?N (replicate (length X) (- 1))"
    by (simp add: fit_predict_def Let_def split: if_splits)
  have core: "?C ! k" if "k < length X" for k
  proof -
    from that assms(2) have "k \<in> set (?N ! k)"
      by (intro radius_neighbors_self) simp_all
    then have "1 \<le> length (?N ! k)"
      by (cases "?N ! k") simp_all
    with assms(3) that show ?thesis
      by (simp add: radius_neighbors_def)
  qed
  have b: "\<forall>x \<in> set (replicate (length X) (- 1 :: int)). - 1 \<le> x"
    by simp
  have c: "\<forall>k < length (replicate (length X) (- 1 :: int)). ?C ! k"
    using core by simp
  from dbscan_inner_all_core [OF b c, of ?N] l
  show "length labels = length X" and "\<forall>c \<in> set labels. 0 \<le> c"
    by simp_all
qed

lemma fit_predict_length:
  assumes "fit_predict cosine_distance eps min_samples X = Inr labels"
  shows "length labels = length X" and "X \<noteq> []"
proof -
  let ?N = "radius_neighbors cosine_distance eps X"
  let ?C = "map (\<lambda>neighbors. min_samples \<le> length neighbors) ?N"
  from assms show "X \<noteq> []"
    by (auto simp: fit_predict_def)
  from assms have l: "labels = fst (foldl (dbscan_step ?C ?N) (replicate (length X) (- 1), 0)
      [0..<length X])"
    by (simp add: fit_predict_def dbscan_inner_def Let_def split: if_splits)
  have "\<forall>x \<in> set (replicate (length X) (- 1 :: int)). - 1 \<le> x"
    by simp
  from dbscan_fold_invariant [OF le_refl _ this, of "length X" ?C ?N 0] l
  show "length labels = length X"
    by (auto split: prod.splits)
qed

lemma map_of_replace_column:
  "map_of (replace_column c cells cs) c' = (if c' = c then Some cells else map_of cs c')"
  by (induction cs) auto

lemma names_replace_column:
  "map fst (replace_column c cells cs) = with_column c (map fst cs)"
  by (induction cs) (force simp: with_column_def)+

lemma set_column_same_rows:
  assumes "set_column c cells df = Inr df'" and "length cells = nrows df"
  shows "nrows df' = nrows df" and "cols df' = replace_column c cells (cols df)"
  using assms by (auto simp: set_column_def split: if_splits)

lemma set_column_rows:
  assumes "set_column c cells df = Inr df'"
  shows "nrows df' = length cells"
  using assms by (auto simp: set_column_def split: if_splits)

lemma map_of_nan_fill:
  "map_of (map (\<lambda>(c', cells'). (c', filler)) cs) c = Some cells \<Longrightarrow> cells = filler"
  by (induction cs) (auto split: if_splits)

lemma documents_nan: "0 < n \<Longrightarrow> documents (replicate n (PyFloat r)) = Inl ValueError"
  by (cases n) simp_all

lemma documents_length: "documents cells = Inr texts \<Longrightarrow> length texts = length cells"
proof (induction cells arbitrary: texts rule: documents.induct)
  case 1
  then show ?case by simp
next
  case (2 s cells)
  then show ?case by (auto split: sum.splits)
qed simp_all

lemma documents_cells: "documents cells = Inr texts \<Longrightarrow> cells = map PyStr texts"
proof (induction cells arbitrary: texts rule: documents.induct)
  case 1
  then show ?case by simp
next
  case (2 s cells)
  then show ?case by (auto split: sum.splits)
qed simp_all

text \<open>The stages of a run of cluster_rules that returns.\<close>

lemma cluster_rules_stages:
  assumes "cluster_rules cosine_distance fit argsort df embeddings = Inr (df', cluster_labels)"
  obtains labels df1 cells text_rule vec where
    "fit_predict cosine_distance (1 / 4) 1 embeddings = Inr labels"
    "set_column ''cluster_id'' (map PyInt labels) df = Inr df1"
    "get_column df1 ''text_rule'' = Inr cells"
    "documents cells = Inr text_rule"
    "fit text_rule = Inr vec"
    "cluster_labels = map (\<lambda>cid. (cid, top_tokens argsort vec labels text_rule cid 3))
        (sort (remdups labels))"
    "set_column ''cluster_label''
       (map (\<lambda>c. case map_of cluster_labels c of Some label \<Rightarrow> PyStr label
                  | None \<Rightarrow> PyFloat ''nan'') labels) df1 = Inr df'"
proof -
  let ?ids = "fit_predict cosine_distance (1 / 4) 1 embeddings"
  from assms obtain labels where a: "?ids = Inr labels"
    by (cases ?ids) (simp_all add: cluster_rules_def)
  let ?df1 = "set_column ''cluster_id'' (map PyInt labels) df"
  from assms a obtain df1 where b: "?df1 = Inr df1"
    by (cases ?df1) (simp_all add: cluster_rules_def)
  let ?cells = "get_column df1 ''text_rule''"
  from assms a b obtain cells where c: "?cells = Inr cells"
    by (cases ?cells) (simp_all add: cluster_rules_def)
  let ?docs = "documents cells"
  from assms a b c obtain text_rule where d: "?docs = Inr text_rule"
    by (cases ?docs) (simp_all add: cluster_rules_def)
  let ?vec = "fit text_rule"
  from assms a b c d obtain vec where e: "?vec = Inr vec"
    by (cases ?vec) (simp_all add: cluster_rules_def)
  let ?labels = "map (\<lambda>cid. (cid, top_tokens argsort vec labels text_rule cid 3))
        (sort (remdups labels))"
  let ?df2 = "set_column ''cluster_label''
       (map (\<lambda>c. case map_of ?labels c of Some label \<Rightarrow> PyStr label
                  | None \<Rightarrow> PyFloat ''nan'') labels) df1"
  from assms a b c d e have f: "?df2 = Inr df'" and g: "cluster_labels = ?labels"
    by (cases ?df2; simp add: cluster_rules_def Let_def)+
  from a b c d e f g that show ?thesis
    by blast
qed

lemma cluster_rules_rows:
  assumes "fit_predict cosine_distance eps min_samples embeddings = Inr labels"
    and "set_column ''cluster_id'' (map PyInt labels) df = Inr df1"
    and "get_column df1 ''text_rule'' = Inr cells"
    and "documents cells = Inr text_rule"
  shows "nrows df = length labels"
proof (rule ccontr)
  assume ne: "nrows df \<noteq> length labels"
  from fit_predict_length [OF assms(1)] have l: "labels \<noteq> []"
    by auto
  have z: "nrows df = 0"
  proof (rule ccontr)
    assume "nrows df \<noteq> 0"
    with assms(2) have "length (map PyInt labels) = nrows df"
      by (simp add: set_column_def split: if_splits)
    with ne show False
      by simp
  qed
  with l assms(2) have "df1 = \<lparr>nrows = length (map PyInt labels),
      cols = replace_column ''cluster_id'' (map PyInt labels)
        (map (\<lambda>(c', cells'). (c', replicate (length (map PyInt labels)) (PyFloat ''nan'')))
          (cols df))\<rparr>"
    by (simp add: set_column_def)
  then have c: "cols df1 = replace_column ''cluster_id'' (map PyInt labels)
      (map (\<lambda>(c', cells'). (c', replicate (length labels) (PyFloat ''nan''))) (cols df))"
    by simp
  from assms(3) have "map_of (cols df1) ''text_rule'' = Some cells"
    by (auto simp: get_column_def split: option.splits)
  then have "map_of (map (\<lambda>(c', cells'). (c', replicate (length labels) (PyFloat ''nan'')))
      (cols df)) ''text_rule'' = Some cells"
    unfolding c by (simp add: map_of_replace_column)
  then have "cells = replicate (length labels) (PyFloat ''nan'')"
    by (rule map_of_nan_fill)
  with l have "documents cells = Inl ValueError"
    by (simp add: documents_nan)
  with assms(4) show False
    by simp
qed

lemma get_column_set_column:
  assumes "set_column c cells df = Inr df'" and "length cells = nrows df"
  shows "get_column df' c' = (if c' = c then Inr cells else get_column df c')"
  using set_column_same_rows [OF assms]
  by (simp add: get_column_def map_of_replace_column)

lemma cluster_rules_frame:
  assumes run: "cluster_rules cosine_distance fit argsort df embeddings = Inr (df', cluster_labels)"
  shows "\<exists>labels text_rule vec.
    fit_predict cosine_distance (1 / 4) 1 embeddings = Inr labels \<and>
    nrows df = length labels \<and> nrows df' = nrows df \<and>
    get_column df ''text_rule'' = Inr (map PyStr text_rule) \<and>
    fit text_rule = Inr vec \<and>
    cluster_labels = map (\<lambda>cid. (cid, top_tokens argsort vec labels text_rule cid 3))
        (sort (remdups labels)) \<and>
    map fst (cols df') =
       with_column ''cluster_label'' (with_column ''cluster_id'' (map fst (cols df))) \<and>
    (\<forall>c. get_column df' c =
       (if c = ''cluster_label'' then
          Inr (map (\<lambda>c. case map_of cluster_labels c of Some label \<Rightarrow> PyStr label
                          | None \<Rightarrow> PyFloat ''nan'') labels)
        else if c = ''cluster_id'' then Inr (map PyInt labels)
        else get_column df c))"
proof -
  from run obtain labels df1 cells text_rule vec where
    a: "fit_predict cosine_distance (1 / 4) 1 embeddings = Inr labels" and
    b: "set_column ''cluster_id'' (map PyInt labels) df = Inr df1" and
    c: "get_column df1 ''text_rule'' = Inr cells" and
    d: "documents cells = Inr text_rule" and
    e: "fit text_rule = Inr vec" and
    f: "cluster_labels = map (\<lambda>cid. (cid, top_tokens argsort vec labels text_rule cid 3))
        (sort (remdups labels))" and
    g: "set_column ''cluster_label''
       (map (\<lambda>c. case map_of cluster_labels c of Some label \<Rightarrow> PyStr label
                  | None \<Rightarrow> PyFloat ''nan'') labels) df1 = Inr df'"
    by (rule cluster_rules_stages)
  let ?mapped = "map (\<lambda>c. case map_of cluster_labels c of Some label \<Rightarrow> PyStr label
                  | None \<Rightarrow> PyFloat ''nan'') labels"
  have n: "nrows df = length labels"
    by (rule cluster_rules_rows [OF a b c d])
  then have l1: "length (map PyInt labels) = nrows df"
    by simp
  note s1 = set_column_same_rows [OF b l1]
  from s1(1) n have l2: "length ?mapped = nrows df1"
    by simp
  note s2 = set_column_same_rows [OF g l2]
  have g1: "get_column df1 c' = (if c' = ''cluster_id'' then Inr (map PyInt labels)
      else get_column df c')" for c'
    by (rule get_column_set_column [OF b l1])
  have g2: "get_column df' c' = (if c' = ''cluster_label'' then Inr ?mapped
      else get_column df1 c')" for c'
    by (rule get_column_set_column [OF g l2])
  from c g1 [of "''text_rule''"] documents_cells [OF d]
  have t: "get_column df ''text_rule'' = Inr (map PyStr text_rule)"
    by simp
  have nm: "map fst (cols df') =
       with_column ''cluster_label'' (with_column ''cluster_id'' (map fst (cols df)))"
    by (simp add: s1(2) s2(2) names_replace_column)
  have gc: "get_column df' c =
       (if c = ''cluster_label'' then Inr ?mapped
        else if c = ''cluster_id'' then Inr (map PyInt labels)
        else get_column df c)" for c
    by (simp add: g1 g2)
  from s1(1) s2(1) have r: "nrows df' = nrows df"
    by simp
  from a n r t e f nm gc show ?thesis
    by blast
qed

lemma members_cover:
  "(\<Union>c \<in> set cluster_id. members cluster_id c) = {0..<length cluster_id}"
  by (auto simp: members_def)

lemma members_disjoint:
  "c \<noteq> c' \<Longrightarrow> members cluster_id c \<inter> members cluster_id c' = {}"
  by (auto simp: members_def)

text \<open>
  C2. When \<open>cluster_rules\<close> returns, every rule has exactly one cluster id (the column
  \<open>cluster_id\<close> has one cell per row of the table and of the embedding matrix), the clusters
  partition the rules, and no id is the noise id \<open>-1\<close>: with \<open>min_samples = 1\<close> a rule whose
  only neighbor within \<open>eps = 0.25\<close> is itself is a cluster of its own. The cosine distance of
  a row to itself is taken to be within \<open>eps\<close> (it is 0 for every non-zero row).
\<close>

theorem cluster_ids_cover:
  assumes "cluster_rules cosine_distance fit argsort df embeddings = Inr (df', cluster_labels)"
    and "\<forall>x \<in> set embeddings. cosine_distance x x \<le> 1 / 4"
  shows "\<exists>cluster_id.
           get_column df' ''cluster_id'' = Inr (map PyInt cluster_id) \<and>
           length cluster_id = nrows df' \<and>
           length cluster_id = length embeddings \<and>
           (\<forall>c \<in> set cluster_id. 0 \<le> c) \<and>
           map fst cluster_labels = sort (remdups cluster_id) \<and>
           (\<Union>c \<in> set cluster_id. members cluster_id c) = {0..<length cluster_id} \<and>
           (\<forall>c c'. c \<noteq> c' \<longrightarrow> members cluster_id c \<inter> members cluster_id c' = {})"
proof -
  obtain labels text_rule vec where
    a: "fit_predict cosine_distance (1 / 4) 1 embeddings = Inr labels" and
    n: "nrows df = length labels" "nrows df' = nrows df" and
    t: "get_column df ''text_rule'' = Inr (map PyStr text_rule)" and
    e: "fit text_rule = Inr vec" and
    f: "cluster_labels = map (\<lambda>cid. (cid, top_tokens argsort vec labels text_rule cid 3))
        (sort (remdups labels))" and
    nm: "map fst (cols df') =
       with_column ''cluster_label'' (with_column ''cluster_id'' (map fst (cols df)))" and
    gc: "\<And>c. get_column df' c =
       (if c = ''cluster_label'' then
          Inr (map (\<lambda>c. case map_of cluster_labels c of Some label \<Rightarrow> PyStr label
                          | None \<Rightarrow> PyFloat ''nan'') labels)
        else if c = ''cluster_id'' then Inr (map PyInt labels)
        else get_column df c)"
    using cluster_rules_frame [OF assms(1)] by blast
  from fit_predict_no_noise [OF a assms(2)]
  have "length labels = length embeddings" and "\<forall>c \<in> set labels. 0 \<le> c"
    by simp_all
  moreover have "get_column df' ''cluster_id'' = Inr (map PyInt labels)"
    by (simp add: gc)
  moreover have "map fst cluster_labels = sort (remdups labels)"
    by (simp add: f comp_def)
  ultimately show ?thesis
    using n members_cover [of labels] members_disjoint [of _ _ labels]
    by (intro exI [of _ labels]) simp
qed

lemma three_rules_run:
  "cluster_rules unit_distance (count_vectorizer stop_words_sample) stable_argsort
     three_rules_flat close_embeddings =
   Inr (three_rules_clustered, [(0, ''age, 21, 18''), (1, ''json, bad, age'')])"
  by code_simp

lemma close_embeddings_self: "\<forall>x \<in> set close_embeddings. unit_distance x x \<le> 1 / 4"
  by (simp add: close_embeddings_def unit_distance_def)

theorem cluster_ids_cover_witness:
  "cluster_rules unit_distance (count_vectorizer stop_words_sample) stable_argsort
     three_rules_flat close_embeddings =
     Inr (three_rules_clustered, [(0, ''age, 21, 18''), (1, ''json, bad, age'')]) \<and>
   list_all (\<lambda>x. unit_distance x x \<le> 1 / 4) close_embeddings \<and>
   get_column three_rules_clustered ''cluster_id'' = Inr (map PyInt [0, 0, 1]) \<and>
   list_all (\<lambda>c. 0 \<le> c) [0, 0, 1 :: int] \<and>
   members [0, 0, 1] 0 \<union> members [0, 0, 1] 1 = {0, 1, 2} \<and>
   members [0, 0, 1] 0 \<inter> members [0, 0, 1] 1 = {}"
proof -
  from cluster_ids_cover [OF three_rules_run close_embeddings_self]
  obtain cluster_id where
    g: "get_column three_rules_clustered ''cluster_id'' = Inr (map PyInt cluster_id)" and
    p: "\<forall>c \<in> set cluster_id. 0 \<le> c" and
    u: "(\<Union>c \<in> set cluster_id. members cluster_id c) = {0..<length cluster_id}" and
    d: "\<forall>c c'. c \<noteq> c' \<longrightarrow> members cluster_id c \<inter> members cluster_id c' = {}"
    by blast
  have "get_column three_rules_clustered ''cluster_id'' = Inr (map PyInt [0, 0, 1])"
    by (simp add: get_column_def three_rules_clustered_def)
  with g have c: "cluster_id = [0, 0, 1]"
    by (auto simp: Cons_eq_map_conv)
  have r: "{0..<length [0, 0, 1 :: int]} = {0, 1, 2 :: nat}"
    by code_simp
  from u have m1: "members [0, 0, 1] 0 \<union> members [0, 0, 1] 1 = {0, 1, 2}"
    unfolding c r by simp
  from d have m2: "members [0, 0, 1] 0 \<inter> members [0, 0, 1] 1 = {}"
    unfolding c by simp
  from p have m3: "list_all (\<lambda>c. 0 \<le> c) [0, 0, 1 :: int]"
    unfolding c by simp
  have m4: "list_all (\<lambda>x. unit_distance x x \<le> 1 / 4) close_embeddings"
    using close_embeddings_self by (simp add: list_all_iff)
  from g have m5: "get_column three_rules_clustered ''cluster_id'' = Inr (map PyInt [0, 0, 1])"
    unfolding c .
  from three_rules_run m4 m5 m3 m1 m2 show ?thesis
    by blast
qed

section \<open>Properties of the table annotations\<close>

lemma compute_embeddings_frame:
  assumes ok: "table_ok df"
    and run: "compute_embeddings encode pyfloat df = Inr (df1, embeddings)"
  shows "\<exists>cells. get_column df ''rule_json'' = Inr cells \<and>
           embeddings = encode (map (flatten_rule pyfloat) cells) \<and>
           nrows df1 = nrows df \<and>
           map fst (cols df1) = with_column ''text_rule'' (map fst (cols df)) \<and>
           (\<forall>c. get_column df1 c =
              (if c = ''text_rule'' then Inr (map (\<lambda>x. PyStr (flatten_rule pyfloat x)) cells)
               else get_column df c))"
proof -
  from run obtain cells where g: "get_column df ''rule_json'' = Inr cells"
    by (cases "get_column df ''rule_json''") (simp_all add: compute_embeddings_def)
  let ?new = "map PyStr (map (flatten_rule pyfloat) cells)"
  from run g have s: "set_column ''text_rule'' ?new df = Inr df1"
    and e: "embeddings = encode (map (flatten_rule pyfloat) cells)"
    by (cases "set_column ''text_rule'' ?new df"; simp add: compute_embeddings_def Let_def)+
  from g have "(''rule_json'', cells) \<in> set (cols df)"
    by (auto simp: get_column_def split: option.splits dest: map_of_SomeD)
  with ok have l: "length ?new = nrows df"
    by (auto simp: table_ok_def list_all_iff)
  note r = set_column_same_rows [OF s l]
  have "get_column df1 c = (if c = ''text_rule'' then Inr ?new else get_column df c)" for c
    by (rule get_column_set_column [OF s l])
  with g e r show ?thesis
    by (simp add: names_replace_column comp_def)
qed

text \<open>
  C8 (as amended). The two stages only write their own columns. \<open>compute_embeddings\<close>
  sets \<open>text_rule\<close>, \<open>cluster_rules\<close> sets \<open>cluster_id\<close> and \<open>cluster_label\<close>: a column of that
  name is appended when the table has none and overwritten where it stands when it has one.
  Every other column keeps its cells, and the rows and their order stay as they are.
\<close>

theorem stages_only_annotate:
  "(table_ok df \<and> compute_embeddings encode pyfloat df = Inr (df1, embeddings) \<longrightarrow>
      nrows df1 = nrows df \<and>
      map fst (cols df1) = with_column ''text_rule'' (map fst (cols df)) \<and>
      (\<forall>c. c \<noteq> ''text_rule'' \<longrightarrow> get_column df1 c = get_column df c)) \<and>
   (cluster_rules cosine_distance fit argsort df embeddings = Inr (df2, cluster_labels) \<longrightarrow>
      nrows df2 = nrows df \<and>
      map fst (cols df2) =
        with_column ''cluster_label'' (with_column ''cluster_id'' (map fst (cols df))) \<and>
      (\<forall>c. c \<noteq> ''cluster_id'' \<and> c \<noteq> ''cluster_label'' \<longrightarrow>
         get_column df2 c = get_column df c))"
proof (intro conjI impI)
  assume a: "table_ok df \<and> compute_embeddings encode pyfloat df = Inr (df1, embeddings)"
  then have ok: "table_ok df" and run: "compute_embeddings encode pyfloat df = Inr (df1, embeddings)"
    by simp_all
  from compute_embeddings_frame [OF ok run]
  show "nrows df1 = nrows df"
    and "map fst (cols df1) = with_column ''text_rule'' (map fst (cols df))"
    and "\<forall>c. c \<noteq> ''text_rule'' \<longrightarrow> get_column df1 c = get_column df c"
    by auto
next
  assume run: "cluster_rules cosine_distance fit argsort df embeddings = Inr (df2, cluster_labels)"
  from cluster_rules_frame [OF run]
  show "nrows df2 = nrows df"
    and "map fst (cols df2) =
        with_column ''cluster_label'' (with_column ''cluster_id'' (map fst (cols df)))"
    and "\<forall>c. c \<noteq> ''cluster_id'' \<and> c \<noteq> ''cluster_label'' \<longrightarrow>
         get_column df2 c = get_column df c"
    by auto
qed

lemma three_rules_embedded:
  "compute_embeddings (\<lambda>texts. close_embeddings) literal_float three_rules =
     Inr (three_rules_flat, close_embeddings)"
  by code_simp

theorem stages_only_annotate_witness:
  "table_ok three_rules \<and>
   compute_embeddings (\<lambda>texts. close_embeddings) literal_float three_rules =
     Inr (three_rules_flat, close_embeddings) \<and>
   cluster_rules unit_distance (count_vectorizer stop_words_sample) stable_argsort
     three_rules_flat close_embeddings =
     Inr (three_rules_clustered, [(0, ''age, 21, 18''), (1, ''json, bad, age'')]) \<and>
   nrows three_rules_flat = nrows three_rules \<and>
   map fst (cols three_rules_flat) = [''rulename'', ''rule_json'', ''text_rule''] \<and>
   get_column three_rules_flat ''rule_json'' = get_column three_rules ''rule_json'' \<and>
   nrows three_rules_clustered = nrows three_rules_flat \<and>
   map fst (cols three_rules_clustered) =
     [''rulename'', ''rule_json'', ''text_rule'', ''cluster_id'', ''cluster_label''] \<and>
   get_column three_rules_clustered ''text_rule'' = get_column three_rules_flat ''text_rule''"
proof -
  have ok: "table_ok three_rules"
    by (simp add: table_ok_def three_rules_def)
  note t1 = stages_only_annotate [where df = three_rules and encode = "\<lambda>texts. close_embeddings"
      and pyfloat = literal_float and ?df1.0 = three_rules_flat
      and embeddings = close_embeddings, THEN conjunct1]
  note t2 = stages_only_annotate [where df = three_rules_flat and embeddings = close_embeddings
      and cosine_distance = unit_distance and fit = "count_vectorizer stop_words_sample"
      and argsort = stable_argsort and ?df2.0 = three_rules_clustered
      and cluster_labels = "[(0, ''age, 21, 18''), (1, ''json, bad, age'')]", THEN conjunct2]
  have names1: "with_column ''text_rule'' (map fst (cols three_rules)) =
      [''rulename'', ''rule_json'', ''text_rule'']"
    by (simp add: with_column_def three_rules_def)
  have names2: "with_column ''cluster_label''
      (with_column ''cluster_id'' (map fst (cols three_rules_flat))) =
      [''rulename'', ''rule_json'', ''text_rule'', ''cluster_id'', ''cluster_label'']"
    by (simp add: with_column_def three_rules_flat_def)
  from t1 ok three_rules_embedded names1
  have a: "nrows three_rules_flat = nrows three_rules"
    and b: "map fst (cols three_rules_flat) = [''rulename'', ''rule_json'', ''text_rule'']"
    and c: "get_column three_rules_flat ''rule_json'' = get_column three_rules ''rule_json''"
    by simp_all
  from t2 three_rules_run names2
  have d: "nrows three_rules_clustered = nrows three_rules_flat"
    and e: "map fst (cols three_rules_clustered) =
      [''rulename'', ''rule_json'', ''text_rule'', ''cluster_id'', ''cluster_label'']"
    and f: "get_column three_rules_clustered ''text_rule'' =
      get_column three_rules_flat ''text_rule''"
    by simp_all
  from ok three_rules_embedded three_rules_run a b c d e f show ?thesis
    by blast
qed

text \<open>
  C8 as stated fails for a table that already has a \<open>text_rule\<close> column: no column is added
  and the cells of the existing column are replaced.
\<close>

lemma stale_table_embedded:
  "compute_embeddings (\<lambda>texts. [[1]]) literal_float stale_table =
     Inr (\<lparr>nrows = 1,
           cols = [(''rulename'', [PyStr ''R1'']),
                   (''text_rule'', [PyStr ''age:>18'']),
                   (''rule_json'', [PyDict [(''age'', PyStr ''>18'')]])]\<rparr>, [[1]])"
  by code_simp

theorem text_rule_overwritten_counterexample:
  "table_ok stale_table \<and>
   get_column stale_table ''text_rule'' = Inr [PyStr ''draft''] \<and>
   compute_embeddings (\<lambda>texts. [[1]]) literal_float stale_table =
     Inr (\<lparr>nrows = 1,
           cols = [(''rulename'', [PyStr ''R1'']),
                   (''text_rule'', [PyStr ''age:>18'']),
                   (''rule_json'', [PyDict [(''age'', PyStr ''>18'')]])]\<rparr>, [[1]])"
  by (simp add: stale_table_embedded) (simp add: table_ok_def stale_table_def get_column_def)


section \<open>Properties of the duplicate filter\<close>

text \<open>
  On a neighbor table that has its \<open>similarity\<close> column the filter keeps exactly the rows at
  or above the threshold, in non-increasing order of similarity; Scenario C of the
  specification is an instance.
\<close>

lemma duplicates_filter:
  assumes "sorts_desc argsort_desc" and "''similarity'' \<in> set (columns report_df)"
  shows "\<exists>dups. duplicates_df argsort_desc report_df similarity_threshold = Inr dups \<and>
           columns dups = columns report_df \<and>
           mset (records dups) =
             mset (filter (\<lambda>r. similarity_threshold \<le> similarity r) (records report_df)) \<and>
           sorted (rev (map similarity (records dups)))"
proof -
  let ?kept = "filter (\<lambda>r. similarity_threshold \<le> similarity r) (records report_df)"
  let ?idx = "argsort_desc (map similarity ?kept)"
  from assms(1) have m: "mset ?idx = mset [0..<length ?kept]"
    and s: "sorted (rev (map ((!) (map similarity ?kept)) ?idx))"
    by (simp_all add: sorts_desc_def)
  from m have "mset (map ((!) ?kept) ?idx) = mset (map ((!) ?kept) [0..<length ?kept])"
    by (metis mset_map)
  then have p: "mset (map ((!) ?kept) ?idx) = mset ?kept"
    by (simp add: map_nth)
  have e: "map similarity (map ((!) ?kept) ?idx) = map ((!) (map similarity ?kept)) ?idx"
    using argsort_bounds(1) [OF assms(1), of "map similarity ?kept"] by auto
  have q: "sorted (rev (map similarity (map ((!) ?kept) ?idx)))"
    unfolding e by (rule s)
  from assms(2) p q show ?thesis
    by (simp add: duplicates_df_def Let_def)
qed

lemma duplicates_filter_scenario_c:
  "sorts_desc stable_argsort_desc \<and>
   ''similarity'' \<in> set (columns (DataFrame
      [\<lparr>rule = PyStr ''R1'', similar_rule = PyStr ''R2'', similarity = 95 / 100\<rparr>,
       \<lparr>rule = PyStr ''R1'', similar_rule = PyStr ''R3'', similarity = 88 / 100\<rparr>,
       \<lparr>rule = PyStr ''R2'', similar_rule = PyStr ''R3'', similarity = 99 / 100\<rparr>])) \<and>
   duplicates_df stable_argsort_desc (DataFrame
      [\<lparr>rule = PyStr ''R1'', similar_rule = PyStr ''R2'', similarity = 95 / 100\<rparr>,
       \<lparr>rule = PyStr ''R1'', similar_rule = PyStr ''R3'', similarity = 88 / 100\<rparr>,
       \<lparr>rule = PyStr ''R2'', similar_rule = PyStr ''R3'', similarity = 99 / 100\<rparr>]) (9 / 10) =
     Inr \<lparr>columns = [''rule'', ''similar_rule'', ''similarity''],
          records =
            [\<lparr>rule = PyStr ''R2'', similar_rule = PyStr ''R3'', similarity = 99 / 100\<rparr>,
             \<lparr>rule = PyStr ''R1'', similar_rule = PyStr ''R2'', similarity = 95 / 100\<rparr>]\<rparr>"
proof -
  let ?t = "DataFrame
      [\<lparr>rule = PyStr ''R1'', similar_rule = PyStr ''R2'', similarity = 95 / 100\<rparr>,
       \<lparr>rule = PyStr ''R1'', similar_rule = PyStr ''R3'', similarity = 88 / 100\<rparr>,
       \<lparr>rule = PyStr ''R2'', similar_rule = PyStr ''R3'', similarity = 99 / 100\<rparr>]"
  have c: "''similarity'' \<in> set (columns ?t)"
    by (simp add: DataFrame_def)
  from duplicates_filter [OF sorts_desc_stable c, of "9 / 10"]
  obtain dups where d: "duplicates_df stable_argsort_desc ?t (9 / 10) = Inr dups"
    by blast
  have "duplicates_df stable_argsort_desc ?t (9 / 10) =
     Inr \<lparr>columns = [''rule'', ''similar_rule'', ''similarity''],
          records =
            [\<lparr>rule = PyStr ''R2'', similar_rule = PyStr ''R3'', similarity = 99 / 100\<rparr>,
             \<lparr>rule = PyStr ''R1'', similar_rule = PyStr ''R2'', similarity = 95 / 100\<rparr>]\<rparr>"
    by (simp add: duplicates_df_def DataFrame_def stable_argsort_desc_def)
  with d c sorts_desc_stable show ?thesis
    by simp
qed

text \<open>
  C9 fails for the neighbor table of a dataset with a single rule. The rule has no neighbor,
  so \<open>compute_similarity_report\<close> builds its report from an empty list of rows; that table
  has no column, and \<open>report_df["similarity"]\<close> raises \<open>KeyError\<close> where the filter should
  return the empty selection.
\<close>

theorem duplicates_single_rule_raises:
  "compute_similarity_report dot_product stable_argsort_desc one_rule [[1]] 3 =
     Inr (([PyStr ''R1''], [[1]]), DataFrame []) \<and>
   DataFrame [] = \<lparr>columns = [], records = []\<rparr> \<and>
   duplicates_df stable_argsort_desc (DataFrame []) (9 / 10) = Inl KeyError"
  by (simp add: compute_similarity_report_def cosine_similarity_def check_array_def
      get_column_def one_rule_def dot_product_def
      neighbors_def sort_values_def stable_argsort_desc_def DataFrame_def duplicates_df_def)

section \<open>Properties of the cluster labels\<close>















end
